theory Spec2Isabelle
  imports Complex_Main
begin

section \<open>Values, arrays and errors\<close>

text \<open>
  The source works on NumPy arrays of IEEE doubles. A finite double is modelled by the
  real number it denotes; the three kinds of non-finite double are kept apart because the
  source tests for them (\<^verbatim>\<open>np.isfinite\<close>, \<^verbatim>\<open>np.isnan\<close>). Rounding and overflow are
  not modelled.
\<close>

datatype pyfloat = Fin real | PInf | NInf | NaN

fun isfinite :: "pyfloat \<Rightarrow> bool" where
  "isfinite (Fin x) = True"
| "isfinite PInf = False"
| "isfinite NInf = False"
| "isfinite NaN = False"

fun isnan :: "pyfloat \<Rightarrow> bool" where
  "isnan NaN = True"
| "isnan (Fin x) = False"
| "isnan PInf = False"
| "isnan NInf = False"

text \<open>The real value of a finite double (only applied where the value is finite).\<close>

fun to_real :: "pyfloat \<Rightarrow> real" where
  "to_real (Fin x) = x"
| "to_real PInf = 0"
| "to_real NInf = 0"
| "to_real NaN = 0"

text \<open>A 2D array is the list of its rows.\<close>

type_synonym 'a grid = "'a list list"

definition shape :: "'a grid \<Rightarrow> nat list" where
  "shape a = map length a"

definition grid_map :: "('a \<Rightarrow> 'b) \<Rightarrow> 'a grid \<Rightarrow> 'b grid" where
  "grid_map f a = map (map f) a"

definition grid_map2 :: "('a \<Rightarrow> 'b \<Rightarrow> 'c) \<Rightarrow> 'a grid \<Rightarrow> 'b grid \<Rightarrow> 'c grid" where
  "grid_map2 f a b = map2 (map2 f) a b"

text \<open>\<^verbatim>\<open>a[locs] = v\<close> for a boolean array \<^verbatim>\<open>locs\<close> of the shape of \<^verbatim>\<open>a\<close>.\<close>

definition grid_assign :: "bool grid \<Rightarrow> 'a \<Rightarrow> 'a grid \<Rightarrow> 'a grid" where
  "grid_assign locs v a = grid_map2 (\<lambda>b x. if b then v else x) locs a"

text \<open>\<^verbatim>\<open>np.sum\<close> of a boolean array.\<close>

definition count_true :: "bool grid \<Rightarrow> int" where
  "count_true locs = int (length (filter (\<lambda>b. b) (concat locs)))"

text \<open>\<^verbatim>\<open>a[locs]\<close> for flattened arrays: the entries of \<^verbatim>\<open>a\<close> where \<^verbatim>\<open>locs\<close> holds, in order.\<close>

definition bool_index :: "'a list \<Rightarrow> bool list \<Rightarrow> 'a list" where
  "bool_index a locs = map fst (filter snd (zip a locs))"

text \<open>The number of columns of a 2D array (\<^verbatim>\<open>a.shape[1]\<close>).\<close>

definition ncols :: "'a grid \<Rightarrow> nat" where
  "ncols a = (case a of [] \<Rightarrow> 0 | row # _ \<Rightarrow> length row)"

datatype error =
    AssertionError
  | ValueError
  | IndexError
  | Exception string

text \<open>
  The quality flags of a \<^verbatim>\<open>SourceMorphology\<close> object are the integers 0 and 1. A
  function of the source that may write \<^verbatim>\<open>self.flag\<close> takes the flag and returns it
  with its value.
\<close>

type_synonym flag = int

section \<open>Construction: non-finite pixels and bad pixels\<close>

text \<open>
  The arrays the caller passes to \<^verbatim>\<open>SourceMorphology.__init__\<close>. They are NumPy arrays
  shared with the caller: an assignment \<^verbatim>\<open>image[locs] = 0.0\<close> inside the constructor
  writes the caller's array. The model threads them through the constructor and returns
  them as the caller sees them afterwards.
\<close>

record caller_arrays =
  image :: "pyfloat grid"
  segmap :: "int grid"
  mask :: "bool grid option"
  variance :: "pyfloat grid option"

text \<open>
  \<^verbatim>\<open>_remove_badpixels\<close> (lines 291-318). \<^verbatim>\<open>convolve\<close> stands for
  \<^verbatim>\<open>ndi.convolve(\<cdot>, w)\<close> with the 8-neighbour averaging kernel \<^verbatim>\<open>w\<close>, a capability of
  SciPy. The image it receives has finite entries only. \<^verbatim>\<open>np.sqrt\<close> of a negative
  number is NaN, and a comparison with NaN is false.
\<close>

definition bad_pixel :: "real \<Rightarrow> real \<Rightarrow> real \<Rightarrow> real \<Rightarrow> bool" where
  "bad_pixel n_sigma_outlier x local_mean local_mean2 =
     (let radicand = local_mean2 - local_mean ^ 2
      in if radicand < 0 then False
         else \<bar>x - local_mean\<bar> > n_sigma_outlier * sqrt radicand)"

definition bad_pixels :: "(real grid \<Rightarrow> real grid) \<Rightarrow> real \<Rightarrow> real grid \<Rightarrow> bool grid" where
  "bad_pixels convolve n_sigma_outlier vals =
     (let local_mean = convolve vals;
          local_mean2 = convolve (grid_map (\<lambda>x. x ^ 2) vals)
      in grid_map2 (\<lambda>x (m, m2). bad_pixel n_sigma_outlier x m m2)
           vals (grid_map2 Pair local_mean local_mean2))"

definition remove_badpixels ::
  "(real grid \<Rightarrow> real grid) \<Rightarrow> real \<Rightarrow> pyfloat grid \<Rightarrow> pyfloat grid \<times> int" where
  "remove_badpixels convolve n_sigma_outlier img =
     (let bad = bad_pixels convolve n_sigma_outlier (grid_map to_real img);
          img' = grid_assign bad (Fin 0) img;
          num_badpixels = count_true bad
      in (img', num_badpixels))"

text \<open>
  The part of \<^verbatim>\<open>__init__\<close> that touches the caller's arrays (lines 239-253). The
  result holds the caller's arrays after the call, the constructor's own mask (a new
  array) and \<^verbatim>\<open>num_badpixels\<close>. Arrays of different shapes make NumPy raise.
\<close>

record init_result =
  arrays :: caller_arrays
  mask_local :: "bool grid"
  num_badpixels :: int

text \<open>The local \<^verbatim>\<open>locs_invalid\<close>: where the image or the variance is not finite.\<close>

definition locs_invalid :: "caller_arrays \<Rightarrow> bool grid" where
  "locs_invalid a =
     (let locs = grid_map (\<lambda>x. \<not> isfinite x) (image a)
      in case variance a of
           None \<Rightarrow> locs
         | Some v \<Rightarrow> grid_map2 (\<or>) locs (grid_map (\<lambda>x. \<not> isfinite x) v))"

definition init_arrays ::
  "(real grid \<Rightarrow> real grid) \<Rightarrow> real \<Rightarrow> bool \<Rightarrow> caller_arrays \<Rightarrow> error + init_result" where
  "init_arrays convolve n_sigma_outlier remove_outliers a =
     (if (case variance a of None \<Rightarrow> False | Some v \<Rightarrow> shape v \<noteq> shape (image a))
      then Inl ValueError
      else if (case mask a of None \<Rightarrow> False | Some m \<Rightarrow> shape m \<noteq> shape (image a))
      then Inl ValueError
      else
        let variance1 = map_option (grid_assign (locs_invalid a) (Fin 0)) (variance a);
            image1 = grid_assign (locs_invalid a) (Fin 0) (image a);
            mask0 = (case mask a of
                       None \<Rightarrow> grid_map (\<lambda>x. False) (image a)
                     | Some m \<Rightarrow> m);
            mask1 = grid_map2 (\<or>) mask0 (locs_invalid a);
            (image2, n) = (if remove_outliers
                           then remove_badpixels convolve n_sigma_outlier image1
                           else (image1, - 1))
        in Inr \<lparr>arrays = a\<lparr>image := image2, variance := variance1\<rparr>,
                mask_local = mask1,
                num_badpixels = n\<rparr>)"

section \<open>Gini coefficient\<close>

text \<open>
  \<^verbatim>\<open>gini\<close> (lines 754-772). The cutout holds finite values only (the constructor has
  zeroed the others). The result is the statistic and the flag; \<open>- 99\<close> is the
  sentinel of an invalid measurement.
\<close>

definition gini :: "real grid \<Rightarrow> bool grid \<Rightarrow> flag \<Rightarrow> real \<times> flag" where
  "gini cutout_stamp_maskzeroed segmap_gini flag =
     (let image = concat cutout_stamp_maskzeroed;
          segmap = concat segmap_gini;
          sorted_pixelvals = sort (map abs (bool_index image segmap));
          n = int (length sorted_pixelvals)
      in if n \<le> 1 \<or> sum_list sorted_pixelvals = 0 then (- 99, 1)
         else
           let indices = [1..n];
               g = sum_list (map2 (\<lambda>i v. real_of_int (2 * i - n - 1) * v)
                               indices sorted_pixelvals)
                   / (real_of_int (n - 1) * sum_list sorted_pixelvals)
           in (g, flag))"

section \<open>Maximum radius of the shape-asymmetry segmap\<close>

text \<open>
  \<^verbatim>\<open>rmax\<close> (lines 1657-1682). \<open>ny\<close> and \<open>nx\<close> are the shape of the cutout, and
  \<open>pixel_distances\<close> is the array \<^verbatim>\<open>distances\<close> of the distances from the centres of
  its pixels to \<open>(xc, yc)\<close>. Indexing that array with a boolean array of another shape
  raises, and so does \<^verbatim>\<open>np.max\<close> of an empty selection.
\<close>

definition pixel_distances :: "nat \<Rightarrow> nat \<Rightarrow> real \<Rightarrow> real \<Rightarrow> real grid" where
  "pixel_distances ny nx xc yc =
     map (\<lambda>i. map (\<lambda>j. sqrt ((real i + 0.5 - yc) ^ 2 + (real j + 0.5 - xc) ^ 2)) [0..<nx])
         [0..<ny]"

definition rmax ::
  "nat \<Rightarrow> nat \<Rightarrow> real \<times> real \<Rightarrow> bool grid \<Rightarrow> flag \<Rightarrow> error + real \<times> flag" where
  "rmax ny nx asymmetry_center segmap_shape_asym flag =
     (let xc = real_of_int \<lfloor>fst asymmetry_center\<rfloor> + 0.5;
          yc = real_of_int \<lfloor>snd asymmetry_center\<rfloor> + 0.5;
          distances = pixel_distances ny nx xc yc
      in if shape segmap_shape_asym \<noteq> shape distances then Inl IndexError
         else
           let selected = bool_index (concat distances) (concat segmap_shape_asym)
           in if selected = [] then Inl ValueError
              else
                let r = Max (set selected)
                in if r < 1
                   then (if r = 0 then Inr (r, 1) else Inl AssertionError)
                   else Inr (r, flag))"

section \<open>Skybox search\<close>

text \<open>A Python \<^verbatim>\<open>slice(start, stop)\<close>.\<close>

datatype slice = Slice nat nat

text \<open>\<^verbatim>\<open>a[slice(i0, i1), slice(j0, j1)]\<close>; NumPy clips a slice to the array.\<close>

definition slice2 :: "'a grid \<Rightarrow> nat \<Rightarrow> nat \<Rightarrow> nat \<Rightarrow> nat \<Rightarrow> 'a grid" where
  "slice2 a i0 i1 j0 j1 = map (\<lambda>row. take (j1 - j0) (drop j0 row)) (take (i1 - i0) (drop i0 a))"

text \<open>
  The test of the inner loop of \<^verbatim>\<open>_slice_skybox\<close>:
  \<^verbatim>\<open>np.all(segmap[boxslice] == 0) and np.all(~mask[boxslice])\<close>.
\<close>

definition box_is_sky :: "int grid \<Rightarrow> bool grid \<Rightarrow> nat \<Rightarrow> nat \<Rightarrow> nat \<Rightarrow> bool" where
  "box_is_sky segmap_stamp mask_stamp skybox_size i j =
     (list_all (list_all (\<lambda>v. v = 0))
        (slice2 segmap_stamp i (i + skybox_size) j (j + skybox_size)) \<and>
      list_all (list_all (\<lambda>b. \<not> b))
        (slice2 mask_stamp i (i + skybox_size) j (j + skybox_size)))"

text \<open>
  The two nested \<^verbatim>\<open>for\<close> loops: the first position, in row-major order, of a box
  that is sky. A Python \<^verbatim>\<open>range\<close> whose stop is below its start is empty, as
  \<open>[a..<b]\<close> is. The sizes are numbers of pixels, so natural numbers.
\<close>

definition find_skybox ::
  "int grid \<Rightarrow> bool grid \<Rightarrow> nat \<Rightarrow> nat \<Rightarrow> nat \<Rightarrow> nat \<Rightarrow> (nat \<times> nat) option" where
  "find_skybox segmap_stamp mask_stamp ny nx border_size skybox_size =
     List.find (\<lambda>(i, j). box_is_sky segmap_stamp mask_stamp skybox_size i j)
       (List.product [border_size..<ny - border_size - skybox_size]
                     [border_size..<nx - border_size - skybox_size])"

text \<open>
  The \<^verbatim>\<open>while True\<close> loop (lines 865-886). It returns the box, the value of
  \<^verbatim>\<open>self._skybox_size\<close> it leaves behind, and the flag. \<open>None\<close> is a loop that
  never returns.
\<close>

partial_function (option) skybox_loop ::
  "int grid \<Rightarrow> bool grid \<Rightarrow> nat \<Rightarrow> nat \<Rightarrow> nat \<Rightarrow> nat \<Rightarrow> flag
   \<Rightarrow> ((slice \<times> slice) \<times> nat \<times> flag) option" where
  "skybox_loop segmap_stamp mask_stamp ny nx border_size skybox_size flag =
     (case find_skybox segmap_stamp mask_stamp ny nx border_size skybox_size of
        Some (i, j) \<Rightarrow>
          Some ((Slice i (i + skybox_size), Slice j (j + skybox_size)), skybox_size, flag)
      | None \<Rightarrow>
          if skybox_size < border_size
          then Some ((Slice border_size (border_size + skybox_size),
                      Slice border_size (border_size + skybox_size)), skybox_size, 1)
          else skybox_loop segmap_stamp mask_stamp ny nx border_size (skybox_size div 2) flag)"

text \<open>\<^verbatim>\<open>_slice_skybox\<close> (lines 844-889).\<close>

definition slice_skybox ::
  "int grid \<Rightarrow> bool grid option \<Rightarrow> nat \<Rightarrow> nat \<Rightarrow> flag
   \<Rightarrow> ((slice \<times> slice) \<times> nat \<times> flag) option" where
  "slice_skybox segmap_stamp mask_opt border_size skybox_size flag =
     (let ny = length segmap_stamp;
          nx = ncols segmap_stamp;
          mask_stamp = (case mask_opt of
                          None \<Rightarrow> grid_map (\<lambda>v. False) segmap_stamp
                        | Some m \<Rightarrow> m)
      in if nx < 2 * border_size \<or> ny < 2 * border_size
         then Some ((Slice 0 0, Slice 0 0), skybox_size, 1)
         else skybox_loop segmap_stamp mask_stamp ny nx border_size skybox_size flag)"

section \<open>Signal-to-noise per pixel\<close>

text \<open>
  The arithmetic of doubles that \<^verbatim>\<open>sn_per_pixel\<close> needs, with the IEEE rules for the
  non-finite values: a square, a sum, a square root, a quotient with a finite numerator,
  and \<^verbatim>\<open>np.mean\<close> (NaN for an empty array).
\<close>

fun fpow2 :: "pyfloat \<Rightarrow> pyfloat" where
  "fpow2 (Fin x) = Fin (x ^ 2)"
| "fpow2 PInf = PInf"
| "fpow2 NInf = PInf"
| "fpow2 NaN = NaN"

fun fadd :: "pyfloat \<Rightarrow> pyfloat \<Rightarrow> pyfloat" where
  "fadd (Fin x) (Fin y) = Fin (x + y)"
| "fadd NaN y = NaN"
| "fadd x NaN = NaN"
| "fadd PInf NInf = NaN"
| "fadd NInf PInf = NaN"
| "fadd PInf y = PInf"
| "fadd x PInf = PInf"
| "fadd NInf y = NInf"
| "fadd x NInf = NInf"

fun fsqrt :: "pyfloat \<Rightarrow> pyfloat" where
  "fsqrt (Fin x) = (if x < 0 then NaN else Fin (sqrt x))"
| "fsqrt PInf = PInf"
| "fsqrt NInf = NaN"
| "fsqrt NaN = NaN"

fun real_div :: "real \<Rightarrow> pyfloat \<Rightarrow> pyfloat" where
  "real_div x (Fin y) =
     (if y \<noteq> 0 then Fin (x / y) else if x = 0 then NaN else if 0 < x then PInf else NInf)"
| "real_div x PInf = Fin 0"
| "real_div x NInf = Fin 0"
| "real_div x NaN = NaN"

definition np_mean :: "pyfloat list \<Rightarrow> pyfloat" where
  "np_mean xs =
     (if xs = [] then NaN
      else case foldl fadd (Fin 0) xs of
             Fin s \<Rightarrow> Fin (s / real (length xs))
           | other \<Rightarrow> other)"

text \<open>
  The expression \<^verbatim>\<open>np.mean(pixelvals / np.sqrt(variance[locs] + self._sky_sigma**2))\<close>.
  \<^verbatim>\<open>_sky_sigma\<close> is NaN when there is no skybox.
\<close>

definition snp_value :: "real grid \<Rightarrow> bool grid \<Rightarrow> real grid \<Rightarrow> pyfloat \<Rightarrow> pyfloat" where
  "snp_value cutout locs variance_stamp sky_sigma =
     np_mean (map2 (\<lambda>p var. real_div p (fsqrt (fadd (Fin var) (fpow2 sky_sigma))))
                (bool_index (concat cutout) (concat locs))
                (bool_index (concat variance_stamp) (concat locs)))"

text \<open>
  \<^verbatim>\<open>sn_per_pixel\<close> (lines 817-838), given the cutout, the Gini segmap and the stamp's
  slice of the variance (finite after the constructor). Without a variance the source
  builds a one-dimensional array of zeros and indexes it with the two-dimensional
  \<^verbatim>\<open>locs\<close>, which NumPy refuses. Arrays of different shapes make NumPy raise.
\<close>

definition sn_per_pixel ::
  "real grid \<Rightarrow> bool grid \<Rightarrow> real grid option \<Rightarrow> pyfloat \<Rightarrow> flag \<Rightarrow> error + real \<times> flag" where
  "sn_per_pixel cutout_stamp_maskzeroed segmap_gini variance_stamp sky_sigma flag =
     (if shape segmap_gini \<noteq> shape cutout_stamp_maskzeroed then Inl ValueError
      else
        let locs = grid_map2 (\<lambda>s x. s \<and> 0 \<le> x) segmap_gini cutout_stamp_maskzeroed
        in case variance_stamp of
             None \<Rightarrow> Inl IndexError
           | Some v \<Rightarrow>
               if shape v \<noteq> shape locs then Inl IndexError
               else
                 let variance = (if list_ex (list_ex (\<lambda>x. x < 0)) v
                                 then grid_map abs v else v);
                     snp = snp_value cutout_stamp_maskzeroed locs variance sky_sigma
                 in if \<not> isfinite snp then Inr (- 99, 1)
                    else Inr (to_real snp, flag))"

section \<open>Asymmetry function\<close>

text \<open>The apertures of \<^verbatim>\<open>photutils\<close> that the source builds: centre and radii.\<close>

datatype aperture =
    CircularAperture "real \<times> real" pyfloat
  | CircularAnnulus "real \<times> real" pyfloat pyfloat

text \<open>
  What \<^verbatim>\<open>_asymmetry_function\<close> reads from the object and from its libraries for a
  given image. The three photometric sums are capabilities of \<^verbatim>\<open>photutils\<close> and
  \<^verbatim>\<open>skimage\<close> (the rotation by 180 degrees about the centre of the aperture and the
  symmetric mask are inside them):
  \<^item> \<open>phot_abs_sum ap\<close> is \<^verbatim>\<open>ap.do_photometry(np.abs(image), method='exact')[0][0]\<close>,
  \<^item> \<open>phot_abs_diff ap\<close> is \<^verbatim>\<open>ap.do_photometry(np.abs(image_180-image), method='exact')[0][0]\<close>,
  \<^item> \<open>phot_area ap\<close> is \<^verbatim>\<open>_aperture_area(ap, mask_symmetric)\<close>.
  The other fields are the properties \<^verbatim>\<open>_rpetro_circ_centroid\<close>,
  \<^verbatim>\<open>half_light_radius\<close>, \<^verbatim>\<open>rmax\<close> and \<^verbatim>\<open>_sky_asymmetry\<close> (the last three can be
  NaN) and the option \<^verbatim>\<open>petro_extent_circ\<close>.
\<close>

record asym_context =
  phot_abs_sum :: "aperture \<Rightarrow> real"
  phot_abs_diff :: "aperture \<Rightarrow> real"
  phot_area :: "aperture \<Rightarrow> real"
  petro_extent_circ :: real
  rpetro_circ_centroid :: real
  half_light_radius :: pyfloat
  rmax_value :: pyfloat
  sky_asymmetry :: pyfloat

text \<open>\<^verbatim>\<open>x <= 0\<close> on doubles: false for NaN.\<close>

fun le_zero :: "pyfloat \<Rightarrow> bool" where
  "le_zero (Fin x) = (x \<le> 0)"
| "le_zero NInf = True"
| "le_zero PInf = False"
| "le_zero NaN = False"

text \<open>
  The choice of the aperture for the kind of asymmetry (lines 996-1013): an aperture, the
  refusal of undefined or non-positive radii, or an unknown kind.
\<close>

datatype aperture_choice = Aperture aperture | InvalidRadius | KindNotUnderstood

definition choose_aperture :: "asym_context \<Rightarrow> real \<times> real \<Rightarrow> string \<Rightarrow> aperture_choice" where
  "choose_aperture c center kind =
     (if kind = ''cas''
      then Aperture (CircularAperture center (Fin (petro_extent_circ c * rpetro_circ_centroid c)))
      else if kind = ''outer''
      then (let r_in = half_light_radius c; r_out = rmax_value c
            in if isnan r_in \<or> isnan r_out \<or> le_zero r_in \<or> le_zero r_out
               then InvalidRadius
               else Aperture (CircularAnnulus center r_in r_out))
      else if kind = ''shape''
      then (if isnan (rmax_value c) \<or> le_zero (rmax_value c)
            then InvalidRadius
            else Aperture (CircularAperture center (rmax_value c)))
      else KindNotUnderstood)"

text \<open>The part after the choice of the aperture (lines 1015-1033).\<close>

definition asymmetry_of_aperture :: "asym_context \<Rightarrow> string \<Rightarrow> aperture \<Rightarrow> flag \<Rightarrow> real \<times> flag" where
  "asymmetry_of_aperture c kind ap flag =
     (let ap_abs_sum = phot_abs_sum c ap;
          ap_abs_diff = phot_abs_diff c ap
      in if ap_abs_sum = 0 then (- 99, 1)
         else if kind = ''shape'' then (ap_abs_diff / ap_abs_sum, flag)
         else if isfinite (sky_asymmetry c)
         then (let ap_area = phot_area c ap
               in ((ap_abs_diff - ap_area * to_real (sky_asymmetry c)) / ap_abs_sum, flag))
         else (ap_abs_diff / ap_abs_sum, flag))"

text \<open>
  \<^verbatim>\<open>_asymmetry_function\<close> (lines 955-1033) for an image of \<open>ny\<close> rows and \<open>nx\<close>
  columns.
\<close>

definition asymmetry_function ::
  "asym_context \<Rightarrow> nat \<Rightarrow> nat \<Rightarrow> real \<times> real \<Rightarrow> string \<Rightarrow> flag \<Rightarrow> error + real \<times> flag" where
  "asymmetry_function c ny nx center kind flag =
     (let xc = fst center; yc = snd center
      in if xc < 0 \<or> real nx \<le> xc \<or> yc < 0 \<or> real ny \<le> yc then Inr (100, 1)
         else case choose_aperture c center kind of
                KindNotUnderstood \<Rightarrow> Inl (Exception ''Asymmetry kind not understood:'')
              | InvalidRadius \<Rightarrow> Inr (- 99, 1)
              | Aperture ap \<Rightarrow> Inr (asymmetry_of_aperture c kind ap flag))"

section \<open>Radius at a fraction of the total flux\<close>

text \<open>
  How a coarse scan ends when it returns: at a point where the function is exactly 0, or
  with the two ends of an interval for the root finder.
\<close>

datatype bracket = Root real | Bracket real real

text \<open>
  \<^verbatim>\<open>_fraction_of_total_function\<close> (lines 61-69). \<open>aperture_sum image center r\<close> is
  \<^verbatim>\<open>photutils.CircularAperture(center, r).do_photometry(image, method='exact')[0][0]\<close>, a
  capability of \<^verbatim>\<open>photutils\<close>.
\<close>

definition fraction_of_total_function ::
  "(real grid \<Rightarrow> real \<times> real \<Rightarrow> real \<Rightarrow> real) \<Rightarrow> real \<Rightarrow> real grid \<Rightarrow> real \<times> real \<Rightarrow> real \<Rightarrow> real
   \<Rightarrow> real" where
  "fraction_of_total_function aperture_sum r img center fraction total_sum =
     (let ap_sum = \<bar>aperture_sum img center r\<bar>
      in ap_sum / total_sum - fraction)"

text \<open>\<^verbatim>\<open>np.linspace(start, stop, num=num)\<close>.\<close>

definition linspace :: "real \<Rightarrow> real \<Rightarrow> nat \<Rightarrow> real list" where
  "linspace start stop num =
     map (\<lambda>i. start + real i * ((stop - start) / real (num - 1))) [0..<num]"

text \<open>
  The \<^verbatim>\<open>while True\<close> loop of \<^verbatim>\<open>_radius_at_fraction_of_total\<close> (lines 97-114), from the
  index \<open>i\<close> with the current \<^verbatim>\<open>r_min\<close> and \<^verbatim>\<open>flag\<close>. It ends with a bracket or
  with the exception of line 99.
\<close>

function fraction_scan ::
  "(real \<Rightarrow> real) \<Rightarrow> real list \<Rightarrow> nat \<Rightarrow> nat \<Rightarrow> real option \<Rightarrow> flag \<Rightarrow> error + bracket \<times> flag"
  where
  "fraction_scan f r_grid npoints i r_min flag =
     (if npoints \<le> i then Inl (Exception ''Root not found within range.'')
      else if f (r_grid ! i) = 0 then Inr (Root (r_grid ! i), flag)
      else if f (r_grid ! i) < 0
      then fraction_scan f r_grid npoints (i + 1) (Some (r_grid ! i)) flag
      else (case r_min of
              None \<Rightarrow> fraction_scan f r_grid npoints (i + 1) None 1
            | Some r_lo \<Rightarrow> Inr (Bracket r_lo (r_grid ! i), flag)))"
  by pat_completeness auto
termination
  by (relation "measure (\<lambda>(f, r_grid, npoints, i, r_min, flag). npoints - i)") auto

declare fraction_scan.simps [simp del]

text \<open>
  \<^verbatim>\<open>_radius_at_fraction_of_total\<close> (lines 71-119). \<open>brentq f a b\<close> is
  \<^verbatim>\<open>opt.brentq(f, a, b, ..., xtol=1e-6)\<close>, a capability of SciPy. The result is the
  radius, NaN when the total flux is not positive, and the local flag.
\<close>

definition radius_at_fraction_of_total ::
  "(real grid \<Rightarrow> real \<times> real \<Rightarrow> real \<Rightarrow> real) \<Rightarrow> ((real \<Rightarrow> real) \<Rightarrow> real \<Rightarrow> real \<Rightarrow> real)
   \<Rightarrow> real grid \<Rightarrow> real \<times> real \<Rightarrow> real \<Rightarrow> real \<Rightarrow> error + pyfloat \<times> flag" where
  "radius_at_fraction_of_total aperture_sum brentq img center0 r_total fraction =
     (let flag = 0;
          center = (real_of_int \<lfloor>fst center0\<rfloor> + 0.5, real_of_int \<lfloor>snd center0\<rfloor> + 0.5);
          total_sum = aperture_sum img center r_total
      in if total_sum \<le> 0 then Inr (NaN, 1)
         else
           let npoints = 100;
               r_inner = min 0.5 (0.2 * r_total)
           in if \<not> r_inner < r_total then Inl AssertionError
              else
                let r_grid = linspace r_inner r_total npoints;
                    f = (\<lambda>r. fraction_of_total_function aperture_sum r img center fraction
                               total_sum)
                in case fraction_scan f r_grid npoints 0 None flag of
                     Inl e \<Rightarrow> Inl e
                   | Inr (Root r, flag') \<Rightarrow> Inr (Fin r, flag')
                   | Inr (Bracket r_min r_max, flag') \<Rightarrow>
                       Inr (Fin (brentq f r_min r_max), flag'))"

text \<open>
  The value \<^verbatim>\<open>curval\<close> of the \<open>i\<close>-th round of that loop, as a function of the
  arguments of \<^verbatim>\<open>_radius_at_fraction_of_total\<close>.
\<close>

definition fraction_curve ::
  "(real grid \<Rightarrow> real \<times> real \<Rightarrow> real \<Rightarrow> real) \<Rightarrow> real grid \<Rightarrow> real \<times> real \<Rightarrow> real \<Rightarrow> real \<Rightarrow> nat
   \<Rightarrow> real" where
  "fraction_curve aperture_sum img center0 r_total fraction i =
     (let center = (real_of_int \<lfloor>fst center0\<rfloor> + 0.5, real_of_int \<lfloor>snd center0\<rfloor> + 0.5);
          total_sum = aperture_sum img center r_total;
          r_inner = min 0.5 (0.2 * r_total);
          r_grid = linspace r_inner r_total 100
      in fraction_of_total_function aperture_sum (r_grid ! i) img center fraction total_sum)"

text \<open>
  \<^verbatim>\<open>_radius_at_fraction_of_total_cas\<close> (lines 1144-1160), given the values of
  \<^verbatim>\<open>self._asymmetry_center\<close> and \<^verbatim>\<open>self.rpetro_circ\<close>.
\<close>

definition radius_at_fraction_of_total_cas ::
  "(real grid \<Rightarrow> real \<times> real \<Rightarrow> real \<Rightarrow> real) \<Rightarrow> ((real \<Rightarrow> real) \<Rightarrow> real \<Rightarrow> real \<Rightarrow> real)
   \<Rightarrow> real grid \<Rightarrow> real \<times> real \<Rightarrow> real \<Rightarrow> real \<Rightarrow> real \<Rightarrow> flag \<Rightarrow> error + real \<times> flag" where
  "radius_at_fraction_of_total_cas aperture_sum brentq img asymmetry_center extent_circ
     rpetro_circ fraction self_flag =
     (let r_upper = extent_circ * rpetro_circ
      in case radius_at_fraction_of_total aperture_sum brentq img asymmetry_center r_upper
                fraction of
           Inl e \<Rightarrow> Inl e
         | Inr (r, flag) \<Rightarrow>
             let self_flag1 = max self_flag flag
             in if isnan r \<or> le_zero r then Inr (- 99, 1)
                else Inr (to_real r, self_flag1))"

text \<open>
  \<^verbatim>\<open>half_light_radius\<close> (lines 1562-1579), given the values of
  \<^verbatim>\<open>self._asymmetry_center\<close> and \<^verbatim>\<open>self.rmax\<close>.
\<close>

definition half_light_radius_of ::
  "(real grid \<Rightarrow> real \<times> real \<Rightarrow> real \<Rightarrow> real) \<Rightarrow> ((real \<Rightarrow> real) \<Rightarrow> real \<Rightarrow> real \<Rightarrow> real)
   \<Rightarrow> real grid \<Rightarrow> real \<times> real \<Rightarrow> real \<Rightarrow> flag \<Rightarrow> error + pyfloat \<times> flag" where
  "half_light_radius_of aperture_sum brentq img asymmetry_center r_max self_flag =
     (if r_max = 0 then Inr (Fin 0, self_flag)
      else case radius_at_fraction_of_total aperture_sum brentq img asymmetry_center r_max
                  (0.5) of
             Inl e \<Rightarrow> Inl e
           | Inr (r, flag) \<Rightarrow> Inr (r, max self_flag flag))"

section \<open>Petrosian radius\<close>

text \<open>
  The end of both Petrosian functions (lines 533-539 and 637-643): the ratio of the two
  absolute mean fluxes, minus \<^verbatim>\<open>eta\<close>; an aperture of zero mean flux raises the flag.
\<close>

definition ratio_minus_eta :: "real \<Rightarrow> real \<Rightarrow> real \<Rightarrow> flag \<Rightarrow> real \<times> flag" where
  "ratio_minus_eta annulus_mean_flux aperture_mean_flux eta flag =
     (if aperture_mean_flux = 0 then (1 - eta, 1)
      else (annulus_mean_flux / aperture_mean_flux - eta, flag))"

text \<open>
  \<^verbatim>\<open>_petrosian_function_circ\<close> (lines 509-539). \<open>annulus_mean center r_in r_out\<close> is
  \<^verbatim>\<open>_aperture_mean_nomask\<close> of the circular annulus and \<open>aperture_mean center r\<close> that
  of the circular aperture, on the cutout: capabilities of \<^verbatim>\<open>photutils\<close>.
\<close>

definition petrosian_function_circ ::
  "(real \<times> real \<Rightarrow> real \<Rightarrow> real \<Rightarrow> real) \<Rightarrow> (real \<times> real \<Rightarrow> real \<Rightarrow> real) \<Rightarrow> real \<Rightarrow> real
   \<Rightarrow> real \<Rightarrow> real \<times> real \<Rightarrow> flag \<Rightarrow> error + real \<times> flag" where
  "petrosian_function_circ annulus_mean aperture_mean annulus_width eta r center flag =
     (let r_in = r - 0.5 * annulus_width;
          r_out = r + 0.5 * annulus_width
      in if \<not> 0 \<le> r_in then Inl AssertionError
         else
           let circ_annulus_mean_flux = \<bar>annulus_mean center r_in r_out\<bar>;
               circ_aperture_mean_flux = \<bar>aperture_mean center r\<bar>
           in Inr (ratio_minus_eta circ_annulus_mean_flux circ_aperture_mean_flux eta flag))"

text \<open>
  \<^verbatim>\<open>_petrosian_function_ellip\<close> (lines 606-643), with the elliptical annulus
  \<open>annulus_mean center a_in a_out b_out theta\<close> and the elliptical aperture
  \<open>aperture_mean center a b theta\<close>. The elongation is a ratio of square roots of
  positive eigenvalues, so not 0.
\<close>

definition petrosian_function_ellip ::
  "(real \<times> real \<Rightarrow> real \<Rightarrow> real \<Rightarrow> real \<Rightarrow> real \<Rightarrow> real)
   \<Rightarrow> (real \<times> real \<Rightarrow> real \<Rightarrow> real \<Rightarrow> real \<Rightarrow> real) \<Rightarrow> real \<Rightarrow> real
   \<Rightarrow> real \<Rightarrow> real \<times> real \<Rightarrow> real \<Rightarrow> real \<Rightarrow> flag \<Rightarrow> error + real \<times> flag" where
  "petrosian_function_ellip annulus_mean aperture_mean annulus_width eta a center elongation
     theta flag =
     (let b = a / elongation;
          a_in = a - 0.5 * annulus_width;
          a_out = a + 0.5 * annulus_width
      in if \<not> 0 \<le> a_in then Inl AssertionError
         else
           let b_out = a_out / elongation;
               ellip_annulus_mean_flux = \<bar>annulus_mean center a_in a_out b_out theta\<bar>;
               ellip_aperture_mean_flux = \<bar>aperture_mean center a b theta\<bar>
           in Inr (ratio_minus_eta ellip_annulus_mean_flux ellip_aperture_mean_flux eta flag))"

text \<open>
  The \<^verbatim>\<open>while True\<close> loop shared by \<^verbatim>\<open>_rpetro_circ_generic\<close> (lines 564-581) and
  \<^verbatim>\<open>_rpetro_ellip_generic\<close> (lines 669-686), from the radius \<open>r\<close> with the current
  \<^verbatim>\<open>r_min\<close> and \<^verbatim>\<open>self.flag\<close>; \<open>pf\<close> is the Petrosian function of the variant. The
  loop has no bound on \<open>r\<close>: \<open>None\<close> is a scan that never returns.
\<close>

partial_function (option) petrosian_scan ::
  "(real \<Rightarrow> flag \<Rightarrow> error + real \<times> flag) \<Rightarrow> real \<Rightarrow> real \<Rightarrow> real option \<Rightarrow> real \<Rightarrow> flag
   \<Rightarrow> (error + bracket \<times> flag) option" where
  "petrosian_scan pf r_outer dr r_min r flag =
     (case pf r (if r_outer \<le> r then 1 else flag) of
        Inl e \<Rightarrow> Some (Inl e)
      | Inr (curval, flag') \<Rightarrow>
          if curval = 0 then Some (Inr (Root r, flag'))
          else if 0 < curval then petrosian_scan pf r_outer dr (Some r) (r + dr) flag'
          else (case r_min of
                  None \<Rightarrow> petrosian_scan pf r_outer dr None (r + dr) 1
                | Some r_lo \<Rightarrow> Some (Inr (Bracket r_lo r, flag'))))"

text \<open>
  What both solvers do around the loop. \<open>brentq pf a b flag\<close> is
  \<^verbatim>\<open>opt.brentq(pf, a, b, ..., xtol=1e-6)\<close> of SciPy; the function it evaluates writes
  \<^verbatim>\<open>self.flag\<close>, so it takes and returns the flag.
\<close>

definition rpetro_generic ::
  "(real \<Rightarrow> flag \<Rightarrow> error + real \<times> flag)
   \<Rightarrow> ((real \<Rightarrow> flag \<Rightarrow> error + real \<times> flag) \<Rightarrow> real \<Rightarrow> real \<Rightarrow> flag \<Rightarrow> error + real \<times> flag)
   \<Rightarrow> real \<Rightarrow> real \<Rightarrow> flag \<Rightarrow> (error + real \<times> flag) option" where
  "rpetro_generic pf brentq annulus_width diagonal_distance flag =
     (let npoints = 100 :: nat;
          r_inner = annulus_width;
          r_outer = diagonal_distance
      in if \<not> r_inner < r_outer then Some (Inl AssertionError)
         else
           let dr = (r_outer - r_inner) / real (npoints - 1)
           in case petrosian_scan pf r_outer dr None r_inner flag of
                None \<Rightarrow> None
              | Some (Inl e) \<Rightarrow> Some (Inl e)
              | Some (Inr (Root r, flag')) \<Rightarrow> Some (Inr (r, flag'))
              | Some (Inr (Bracket r_min r_max, flag')) \<Rightarrow>
                  Some (brentq pf r_min r_max flag'))"

text \<open>\<^verbatim>\<open>_rpetro_circ_generic\<close> (lines 541-586).\<close>

definition rpetro_circ_generic ::
  "(real \<times> real \<Rightarrow> real \<Rightarrow> real \<Rightarrow> real) \<Rightarrow> (real \<times> real \<Rightarrow> real \<Rightarrow> real)
   \<Rightarrow> ((real \<Rightarrow> flag \<Rightarrow> error + real \<times> flag) \<Rightarrow> real \<Rightarrow> real \<Rightarrow> flag \<Rightarrow> error + real \<times> flag)
   \<Rightarrow> real \<Rightarrow> real \<Rightarrow> real \<Rightarrow> real \<times> real \<Rightarrow> flag \<Rightarrow> (error + real \<times> flag) option" where
  "rpetro_circ_generic annulus_mean aperture_mean brentq annulus_width eta diagonal_distance
     center flag =
     rpetro_generic
       (\<lambda>r. petrosian_function_circ annulus_mean aperture_mean annulus_width eta r center)
       brentq annulus_width diagonal_distance flag"

text \<open>\<^verbatim>\<open>_rpetro_ellip_generic\<close> (lines 645-691).\<close>

definition rpetro_ellip_generic ::
  "(real \<times> real \<Rightarrow> real \<Rightarrow> real \<Rightarrow> real \<Rightarrow> real \<Rightarrow> real)
   \<Rightarrow> (real \<times> real \<Rightarrow> real \<Rightarrow> real \<Rightarrow> real \<Rightarrow> real)
   \<Rightarrow> ((real \<Rightarrow> flag \<Rightarrow> error + real \<times> flag) \<Rightarrow> real \<Rightarrow> real \<Rightarrow> flag \<Rightarrow> error + real \<times> flag)
   \<Rightarrow> real \<Rightarrow> real \<Rightarrow> real \<Rightarrow> real \<times> real \<Rightarrow> real \<Rightarrow> real \<Rightarrow> flag
   \<Rightarrow> (error + real \<times> flag) option" where
  "rpetro_ellip_generic annulus_mean aperture_mean brentq annulus_width eta diagonal_distance
     center elongation theta flag =
     rpetro_generic
       (\<lambda>a. petrosian_function_ellip annulus_mean aperture_mean annulus_width eta a center
              elongation theta)
       brentq annulus_width diagonal_distance flag"

text \<open>
  The value that the Petrosian function returns at \<open>r\<close>, which does not depend on the
  flag: the curve \<open>f\<close> that the scan follows.
\<close>

definition petrosian_value_circ ::
  "(real \<times> real \<Rightarrow> real \<Rightarrow> real \<Rightarrow> real) \<Rightarrow> (real \<times> real \<Rightarrow> real \<Rightarrow> real) \<Rightarrow> real \<Rightarrow> real
   \<Rightarrow> real \<times> real \<Rightarrow> real \<Rightarrow> real" where
  "petrosian_value_circ annulus_mean aperture_mean annulus_width eta center r =
     fst (ratio_minus_eta
            \<bar>annulus_mean center (r - 0.5 * annulus_width) (r + 0.5 * annulus_width)\<bar>
            \<bar>aperture_mean center r\<bar> eta 0)"

definition petrosian_value_ellip ::
  "(real \<times> real \<Rightarrow> real \<Rightarrow> real \<Rightarrow> real \<Rightarrow> real \<Rightarrow> real)
   \<Rightarrow> (real \<times> real \<Rightarrow> real \<Rightarrow> real \<Rightarrow> real \<Rightarrow> real) \<Rightarrow> real \<Rightarrow> real
   \<Rightarrow> real \<times> real \<Rightarrow> real \<Rightarrow> real \<Rightarrow> real \<Rightarrow> real" where
  "petrosian_value_ellip annulus_mean aperture_mean annulus_width eta center elongation theta a =
     fst (ratio_minus_eta
            \<bar>annulus_mean center (a - 0.5 * annulus_width) (a + 0.5 * annulus_width)
               ((a + 0.5 * annulus_width) / elongation) theta\<bar>
            \<bar>aperture_mean center a (a / elongation) theta\<bar> eta 0)"

text \<open>
  Where a scan along \<open>f\<close> from \<open>r_inner\<close> in steps of \<open>dr\<close> stops: at the first point
  where \<open>f\<close> is 0, or is negative after having been positive. \<open>first_stop\<close> says
  that the \<open>n\<close>-th point is that point, and \<open>stop_bracket\<close> is what the scan has
  found there.
\<close>

definition scan_stops :: "(real \<Rightarrow> real) \<Rightarrow> real \<Rightarrow> real \<Rightarrow> nat \<Rightarrow> bool" where
  "scan_stops f r_inner dr n \<longleftrightarrow>
     f (r_inner + real n * dr) = 0 \<or>
     (f (r_inner + real n * dr) < 0 \<and> (\<exists>j<n. 0 < f (r_inner + real j * dr)))"

definition first_stop :: "(real \<Rightarrow> real) \<Rightarrow> real \<Rightarrow> real \<Rightarrow> nat \<Rightarrow> bool" where
  "first_stop f r_inner dr n \<longleftrightarrow>
     scan_stops f r_inner dr n \<and> (\<forall>k<n. \<not> scan_stops f r_inner dr k)"

definition stop_bracket :: "(real \<Rightarrow> real) \<Rightarrow> real \<Rightarrow> real \<Rightarrow> nat \<Rightarrow> bracket" where
  "stop_bracket f r_inner dr n =
     (if f (r_inner + real n * dr) = 0 then Root (r_inner + real n * dr)
      else Bracket (r_inner + real (n - 1) * dr) (r_inner + real n * dr))"

text \<open>
  Capabilities for examples: the photometry of a source of unit flux that lies inside
  every aperture, and a stand-in for a root finder in examples that never reach it.
\<close>

definition enclosed_unit_flux :: "real grid \<Rightarrow> real \<times> real \<Rightarrow> real \<Rightarrow> real" where
  "enclosed_unit_flux img center r = 1"

definition lower_end :: "(real \<Rightarrow> real) \<Rightarrow> real \<Rightarrow> real \<Rightarrow> real" where
  "lower_end f a b = a"

text \<open>
  Mean fluxes for an example of the Petrosian scan: the mean flux in the aperture is 1,
  and the mean flux in the annulus is 1 up to the outer edge \<open>100.5\<close> and \<open>1 / 5\<close>
  beyond it. With \<^verbatim>\<open>eta\<close> \<open>= 1 / 5\<close> and annuli of width 1 the Petrosian function is
  \<open>4 / 5\<close> up to the radius 100 and 0 beyond. The root finder of the example is not
  reached.
\<close>

definition plateau_annulus_mean :: "real \<times> real \<Rightarrow> real \<Rightarrow> real \<Rightarrow> real" where
  "plateau_annulus_mean center r_in r_out = (if r_out \<le> 201 / 2 then 1 else 1 / 5)"

definition plateau_ellip_annulus_mean ::
  "real \<times> real \<Rightarrow> real \<Rightarrow> real \<Rightarrow> real \<Rightarrow> real \<Rightarrow> real" where
  "plateau_ellip_annulus_mean center a_in a_out b_out theta =
     (if a_out \<le> 201 / 2 then 1 else 1 / 5)"

definition unit_aperture_mean :: "real \<times> real \<Rightarrow> real \<Rightarrow> real" where
  "unit_aperture_mean center r = 1"

definition unit_ellip_aperture_mean :: "real \<times> real \<Rightarrow> real \<Rightarrow> real \<Rightarrow> real \<Rightarrow> real" where
  "unit_ellip_aperture_mean center a b theta = 1"

definition lower_end_flag ::
  "(real \<Rightarrow> flag \<Rightarrow> error + real \<times> flag) \<Rightarrow> real \<Rightarrow> real \<Rightarrow> flag \<Rightarrow> error + real \<times> flag" where
  "lower_end_flag pf a b flag = Inr (a, flag)"

text \<open>A context for examples: constant photometric sums and valid radii.\<close>

definition example_context :: asym_context where
  "example_context =
     \<lparr>phot_abs_sum = (\<lambda>ap. 10), phot_abs_diff = (\<lambda>ap. 3), phot_area = (\<lambda>ap. 4),
      petro_extent_circ = 1.5, rpetro_circ_centroid = 2, half_light_radius = Fin 1,
      rmax_value = Fin 3, sky_asymmetry = Fin (1 / 4)\<rparr>"

text \<open>
  A stamp filled by the source (label 1) but for one background pixel: the segmentation
  map of a cutout in which no 2 by 2 box is sky.
\<close>

definition crowded_stamp :: "int grid" where
  "crowded_stamp =
     [[1, 1, 1, 1, 1, 1],
      [1, 1, 1, 1, 1, 1],
      [1, 1, 0, 1, 1, 1],
      [1, 1, 1, 1, 1, 1],
      [1, 1, 1, 1, 1, 1],
      [1, 1, 1, 1, 1, 1]]"

section \<open>Verification\<close>

lemma count_true_nonneg: "0 \<le> count_true locs"
  by (simp add: count_true_def)

subsection \<open>Arrays\<close>

lemma shape_grid_map: "shape (grid_map f a) = shape a"
  by (simp add: shape_def grid_map_def)

lemma shape_eq_length: "shape a = shape b \<Longrightarrow> length a = length b"
  unfolding shape_def by (rule map_eq_imp_length_eq)

lemma shape_eq_row: 
  assumes "shape a = shape b" "i < length a"
  shows "length (a ! i) = length (b ! i)"
proof -
  from assms(1) have len: "length a = length b" by (rule shape_eq_length)
  from assms(1) have "map length a ! i = map length b ! i" by (simp add: shape_def)
  with assms(2) len show ?thesis by simp
qed

lemma shape_grid_map2: 
  assumes "shape a = shape b" shows "shape (grid_map2 f a b) = shape a"
proof -
  have len: "length a = length b" using assms by (rule shape_eq_length)
  show ?thesis
    unfolding shape_def grid_map2_def
  proof (rule nth_equalityI)
    show "length (map length (map2 (map2 f) a b)) = length (map length a)"
      using len by simp
  next
    fix i assume "i < length (map length (map2 (map2 f) a b))"
    then have i: "i < length a" using len by simp
    with assms have "length (a ! i) = length (b ! i)" by (rule shape_eq_row)
    then show "map length (map2 (map2 f) a b) ! i = map length a ! i"
      using i len by simp
  qed
qed

lemma nth_grid_map2:
  assumes "shape a = shape b" "i < length a" "j < length (a ! i)"
  shows "grid_map2 f a b ! i ! j = f (a ! i ! j) (b ! i ! j)"
proof -
  have len: "length a = length b" using assms(1) by (rule shape_eq_length)
  have row: "length (a ! i) = length (b ! i)" using assms(1,2) by (rule shape_eq_row)
  show ?thesis using assms(2,3) len row by (simp add: grid_map2_def)
qed

lemma shape_grid_assign: "shape locs = shape a \<Longrightarrow> shape (grid_assign locs v a) = shape a"
  by (simp add: grid_assign_def shape_grid_map2)

lemma nth_grid_assign:
  assumes "shape locs = shape a" "i < length a" "j < length (a ! i)"
  shows "grid_assign locs v a ! i ! j = (if locs ! i ! j then v else a ! i ! j)"
proof -
  have i: "i < length locs" using assms(1,2) shape_eq_length[of locs a] by simp
  have "length (locs ! i) = length (a ! i)" using assms(1) i by (rule shape_eq_row)
  then have j: "j < length (locs ! i)" using assms(3) by simp
  show ?thesis unfolding grid_assign_def using assms(1) i j by (rule nth_grid_map2)
qed

lemma shape_locs_invalid:
  assumes "\<And>v. variance a = Some v \<Longrightarrow> shape v = shape (image a)"
  shows "shape (locs_invalid a) = shape (image a)"
  using assms by (cases "variance a") (simp_all add: locs_invalid_def shape_grid_map shape_grid_map2)

lemma shape_bad_pixels:
  assumes "\<And>g. shape (convolve g) = shape g"
  shows "shape (bad_pixels convolve n vals) = shape vals"
  by (simp add: bad_pixels_def Let_def shape_grid_map2 assms shape_grid_map)


lemma init_arrays_Inr:
  assumes "init_arrays convolve n ro a = Inr r"
  shows "(\<forall>v. variance a = Some v \<longrightarrow> shape v = shape (image a))"
    and "arrays r = a\<lparr>image := (if ro then fst (remove_badpixels convolve n (grid_assign (locs_invalid a) (Fin 0) (image a)))
                                  else grid_assign (locs_invalid a) (Fin 0) (image a)),
                       variance := map_option (grid_assign (locs_invalid a) (Fin 0)) (variance a)\<rparr>"
    and "num_badpixels r = (if ro then snd (remove_badpixels convolve n (grid_assign (locs_invalid a) (Fin 0) (image a))) else - 1)"
  using assms
  by (auto simp: init_arrays_def Let_def split: if_splits option.splits prod.splits)

subsection \<open>Construction\<close>

text \<open>
  C10. A construction with \<^verbatim>\<open>remove_outliers\<close> false leaves \<^verbatim>\<open>num_badpixels\<close> at
  \<open>- 1\<close>; a construction that runs the filter sets it to a count, which is never
  negative, so the two cases can be told apart.
\<close>

theorem num_badpixels_sentinel_when_disabled:
  assumes "init_arrays convolve n_sigma_outlier remove_outliers a = Inr r"
  shows "(\<not> remove_outliers \<longrightarrow> num_badpixels r = - 1)
       \<and> (remove_outliers \<longrightarrow> 0 \<le> num_badpixels r)"
  using init_arrays_Inr(3)[OF assms]
  by (simp add: remove_badpixels_def Let_def count_true_nonneg)

theorem num_badpixels_sentinel_when_disabled_witness:
  "init_arrays (\<lambda>g. g) 10 False
     \<lparr>image = [[Fin 1, Fin 2]], segmap = [[1, 1]], mask = None, variance = None\<rparr>
   = Inr \<lparr>arrays = \<lparr>image = [[Fin 1, Fin 2]], segmap = [[1, 1]], mask = None,
                      variance = None\<rparr>,
           mask_local = [[False, False]], num_badpixels = - 1\<rparr>
   \<and> num_badpixels \<lparr>arrays = \<lparr>image = [[Fin 1, Fin 2]], segmap = [[1, 1]], mask = None,
                      variance = None\<rparr>,
           mask_local = [[False, False]], num_badpixels = - 1\<rparr> = - 1"
proof -
  have e: "init_arrays (\<lambda>g. g) 10 False
     \<lparr>image = [[Fin 1, Fin 2]], segmap = [[1, 1]], mask = None, variance = None\<rparr>
   = Inr \<lparr>arrays = \<lparr>image = [[Fin 1, Fin 2]], segmap = [[1, 1]], mask = None,
                      variance = None\<rparr>,
           mask_local = [[False, False]], num_badpixels = - 1\<rparr>"
    by (simp add: init_arrays_def locs_invalid_def grid_assign_def grid_map2_def grid_map_def
        shape_def)
  from num_badpixels_sentinel_when_disabled[OF e] e show ?thesis by simp
qed

text \<open>
  C5 as stated fails: with \<^verbatim>\<open>remove_outliers\<close> false no bad-pixel pass runs, and
  still the constructor writes the caller's image (the NaN pixel becomes 0) and the
  caller's variance (the finite entry 4 at that position becomes 0).
\<close>

theorem init_arrays_zeroes_nonfinite_counterexample:
  "init_arrays id 10 False
     \<lparr>image = [[NaN, Fin 1]], segmap = [[1, 1]], mask = None,
      variance = Some [[Fin 4, Fin 5]]\<rparr>
   = Inr \<lparr>arrays = \<lparr>image = [[Fin 0, Fin 1]], segmap = [[1, 1]], mask = None,
                      variance = Some [[Fin 0, Fin 5]]\<rparr>,
           mask_local = [[True, False]], num_badpixels = - 1\<rparr>"
  by (simp add: init_arrays_def locs_invalid_def grid_assign_def grid_map2_def grid_map_def
      shape_def)

text \<open>
  C5, amended. The constructor leaves the segmentation map and the mask as they are. It
  writes the caller's image and variance in place, and only by zeroing: a pixel of the
  image becomes 0 where the image or the variance is not finite and, when
  \<^verbatim>\<open>remove_outliers\<close> is set, where the bad-pixel pass finds an outlier; an entry of
  the variance becomes 0 where the image or the variance is not finite. Every other
  entry, and the shape of both arrays, is unchanged. \<^verbatim>\<open>ndi.convolve\<close> returns an
  array of the shape of its input.
\<close>

theorem init_arrays_frame:
  assumes ok: "init_arrays convolve n_sigma_outlier remove_outliers a = Inr r"
    and conv: "\<And>g. shape (convolve g) = shape g"
  shows "segmap (arrays r) = segmap a \<and> mask (arrays r) = mask a
    \<and> shape (image (arrays r)) = shape (image a)
    \<and> (\<forall>i j. i < length (image a) \<longrightarrow> j < length (image a ! i) \<longrightarrow>
          image (arrays r) ! i ! j =
            (if locs_invalid a ! i ! j
                \<or> (remove_outliers \<and>
                    bad_pixels convolve n_sigma_outlier
                      (grid_map to_real (grid_assign (locs_invalid a) (Fin 0) (image a))) ! i ! j)
             then Fin 0 else image a ! i ! j))
    \<and> (variance a = None \<longrightarrow> variance (arrays r) = None)
    \<and> (\<forall>v. variance a = Some v \<longrightarrow>
          (\<exists>v'. variance (arrays r) = Some v' \<and> shape v' = shape v
             \<and> (\<forall>i j. i < length v \<longrightarrow> j < length (v ! i) \<longrightarrow>
                   v' ! i ! j = (if locs_invalid a ! i ! j then Fin 0 else v ! i ! j))))"
proof -
  let ?L = "locs_invalid a"
  let ?img1 = "grid_assign ?L (Fin 0) (image a)"
  let ?bad = "bad_pixels convolve n_sigma_outlier (grid_map to_real ?img1)"
  have vshape: "\<And>v. variance a = Some v \<Longrightarrow> shape v = shape (image a)"
    using init_arrays_Inr(1)[OF ok] by simp
  have L: "shape ?L = shape (image a)" using vshape by (rule shape_locs_invalid)
  have s1: "shape ?img1 = shape (image a)" using L by (rule shape_grid_assign)
  have B: "shape ?bad = shape ?img1"
    using shape_bad_pixels[OF conv, of n_sigma_outlier "grid_map to_real ?img1"]
    by (simp add: shape_grid_map)
  have arr: "arrays r = a\<lparr>image := (if remove_outliers then grid_assign ?bad (Fin 0) ?img1 else ?img1),
                           variance := map_option (grid_assign ?L (Fin 0)) (variance a)\<rparr>"
    using init_arrays_Inr(2)[OF ok] by (simp add: remove_badpixels_def Let_def)
  have seg: "segmap (arrays r) = segmap a" and msk: "mask (arrays r) = mask a"
    by (simp_all add: arr)
  have shp: "shape (image (arrays r)) = shape (image a)"
    using s1 shape_grid_assign[OF B, of "Fin 0"] by (simp add: arr)
  have pix: "image (arrays r) ! i ! j =
            (if ?L ! i ! j \<or> (remove_outliers \<and> ?bad ! i ! j) then Fin 0 else image a ! i ! j)"
    if i: "i < length (image a)" and j: "j < length (image a ! i)" for i j
  proof -
    have p1: "?img1 ! i ! j = (if ?L ! i ! j then Fin 0 else image a ! i ! j)"
      using L i j by (rule nth_grid_assign)
    have i1: "i < length ?img1" using i shape_eq_length[OF s1] by simp
    have j1: "j < length (?img1 ! i)" using j shape_eq_row[OF s1 i1] by simp
    have p2: "grid_assign ?bad (Fin 0) ?img1 ! i ! j = (if ?bad ! i ! j then Fin 0 else ?img1 ! i ! j)"
      using B i1 j1 by (rule nth_grid_assign)
    show ?thesis using p1 p2 by (simp add: arr)
  qed
  have vnone: "variance a = None \<longrightarrow> variance (arrays r) = None" by (simp add: arr)
  have vsome: "\<exists>v'. variance (arrays r) = Some v' \<and> shape v' = shape v
             \<and> (\<forall>i j. i < length v \<longrightarrow> j < length (v ! i) \<longrightarrow>
                   v' ! i ! j = (if ?L ! i ! j then Fin 0 else v ! i ! j))"
    if v: "variance a = Some v" for v
  proof -
    have Lv: "shape ?L = shape v" using L vshape[OF v] by simp
    have "variance (arrays r) = Some (grid_assign ?L (Fin 0) v)" using v by (simp add: arr)
    moreover have "shape (grid_assign ?L (Fin 0) v) = shape v" using Lv by (rule shape_grid_assign)
    moreover have "\<forall>i j. i < length v \<longrightarrow> j < length (v ! i) \<longrightarrow>
        grid_assign ?L (Fin 0) v ! i ! j = (if ?L ! i ! j then Fin 0 else v ! i ! j)"
      using nth_grid_assign[OF Lv] by blast
    ultimately show ?thesis by blast
  qed
  show ?thesis using seg msk shp pix vnone vsome by blast
qed

theorem init_arrays_frame_witness:
  "init_arrays (\<lambda>g. g) 10 True
     \<lparr>image = [[NaN, Fin 1]], segmap = [[1, 1]], mask = None,
      variance = Some [[Fin 4, PInf]]\<rparr>
   = Inr \<lparr>arrays = \<lparr>image = [[Fin 0, Fin 0]], segmap = [[1, 1]], mask = None,
                      variance = Some [[Fin 0, Fin 0]]\<rparr>,
           mask_local = [[True, True]], num_badpixels = 0\<rparr>
   \<and> shape [[Fin 0, Fin (0::real)]] = shape [[NaN, Fin 1]]"
proof -
  let ?a = "\<lparr>image = [[NaN, Fin 1]], segmap = [[1, 1]], mask = None,
      variance = Some [[Fin 4, PInf]]\<rparr>"
  let ?r = "\<lparr>arrays = \<lparr>image = [[Fin 0, Fin 0]], segmap = [[1, 1]], mask = None,
                      variance = Some [[Fin 0, Fin 0]]\<rparr>,
           mask_local = [[True, True]], num_badpixels = 0\<rparr>"
  have e: "init_arrays (\<lambda>g. g) 10 True ?a = Inr ?r"
    by (simp add: init_arrays_def locs_invalid_def grid_assign_def grid_map2_def grid_map_def
        shape_def remove_badpixels_def bad_pixels_def bad_pixel_def count_true_def)
  have c: "\<And>g::real grid. shape ((\<lambda>g. g) g) = shape g" by simp
  from init_arrays_frame[OF e c]
  have "shape (image (arrays ?r)) = shape (image ?a)" by blast
  with e show ?thesis by simp
qed

subsection \<open>Gini coefficient\<close>

lemma sum_list_ge_const:
  "\<forall>y\<in>set xs. x \<le> y \<Longrightarrow> real (length xs) * x \<le> sum_list xs"
  for x :: real
  by (induction xs) (auto simp: algebra_simps)

lemma weighted_sum_lower:
  "sorted vs \<Longrightarrow>
   real_of_int (2 * a - c + int (length vs) - 1) * sum_list vs
   \<le> sum_list (map2 (\<lambda>i v. real_of_int (2 * i - c) * v) [a..a + int (length vs) - 1] vs)"
proof (induction vs arbitrary: a)
  case Nil
  then show ?case by simp
next
  case (Cons x xs)
  let ?n = "int (length xs)"
  let ?W = "sum_list (map2 (\<lambda>i v. real_of_int (2 * i - c) * v) [a + 1..a + 1 + ?n - 1] xs)"
  from Cons.prems have sx: "sorted xs" and le: "\<forall>y\<in>set xs. x \<le> y" by simp_all
  have up: "[a..a + int (length (x # xs)) - 1] = a # [a + 1..a + 1 + ?n - 1]"
    by (simp add: upto_rec1 algebra_simps)
  have IH: "real_of_int (2 * (a + 1) - c + ?n - 1) * sum_list xs \<le> ?W"
    using Cons.IH[OF sx, of "a + 1"] .
  have S: "real (length xs) * x \<le> sum_list xs" using le by (rule sum_list_ge_const)
  have "real_of_int (2 * a - c + int (length (x # xs)) - 1) * sum_list (x # xs)
        = real_of_int (2 * a - c) * x + real_of_int (2 * (a + 1) - c + ?n - 1) * sum_list xs
          + (real (length xs) * x - sum_list xs)"
    by (simp add: algebra_simps)
  also have "\<dots> \<le> real_of_int (2 * a - c) * x + ?W"
    using IH S by linarith
  also have "\<dots> = sum_list (map2 (\<lambda>i v. real_of_int (2 * i - c) * v)
                        [a..a + int (length (x # xs)) - 1] (x # xs))"
    unfolding up by simp
  finally show ?case .
qed

lemma weighted_sum_upper:
  "\<forall>v\<in>set vs. 0 \<le> v \<Longrightarrow> 2 * (a + int (length vs) - 1) - c \<le> M \<Longrightarrow>
   sum_list (map2 (\<lambda>i v. real_of_int (2 * i - c) * v) [a..a + int (length vs) - 1] vs)
   \<le> real_of_int M * sum_list vs"
proof (induction vs arbitrary: a)
  case Nil
  then show ?case by simp
next
  case (Cons x xs)
  let ?n = "int (length xs)"
  let ?W = "sum_list (map2 (\<lambda>i v. real_of_int (2 * i - c) * v) [a + 1..a + 1 + ?n - 1] xs)"
  from Cons.prems have nn: "\<forall>v\<in>set xs. 0 \<le> v" and x0: "0 \<le> x" by simp_all
  from Cons.prems(2) have b: "2 * (a + 1 + ?n - 1) - c \<le> M" by simp
  have up: "[a..a + int (length (x # xs)) - 1] = a # [a + 1..a + 1 + ?n - 1]"
    by (simp add: upto_rec1 algebra_simps)
  have IH: "?W \<le> real_of_int M * sum_list xs"
    using Cons.IH[OF nn b] .
  from b have "2 * a - c \<le> M" by simp
  then have "real_of_int (2 * a - c) \<le> real_of_int M" by simp
  then have hx: "real_of_int (2 * a - c) * x \<le> real_of_int M * x"
    using x0 by (rule mult_right_mono)
  have "sum_list (map2 (\<lambda>i v. real_of_int (2 * i - c) * v)
                        [a..a + int (length (x # xs)) - 1] (x # xs))
        = real_of_int (2 * a - c) * x + ?W"
    unfolding up by simp
  also have "\<dots> \<le> real_of_int M * x + real_of_int M * sum_list xs"
    using IH hx by linarith
  also have "\<dots> = real_of_int M * sum_list (x # xs)" by (simp add: algebra_simps)
  finally show ?case .
qed

lemma gini_numerator_bounds:
  assumes "sorted vs" "\<forall>v\<in>set vs. 0 \<le> v"
  shows "0 \<le> sum_list (map2 (\<lambda>i v. real_of_int (2 * i - int (length vs) - 1) * v)
                 [1..int (length vs)] vs)"
    and "sum_list (map2 (\<lambda>i v. real_of_int (2 * i - int (length vs) - 1) * v)
                 [1..int (length vs)] vs) \<le> real_of_int (int (length vs) - 1) * sum_list vs"
proof -
  let ?n = "int (length vs)"
  have eq: "(\<lambda>i v. real_of_int (2 * i - ?n - 1) * v) = (\<lambda>i v. real_of_int (2 * i - (?n + 1)) * v)"
    by (simp add: algebra_simps)
  have r: "[1..?n] = [1..1 + ?n - 1]" by simp
  show "0 \<le> sum_list (map2 (\<lambda>i v. real_of_int (2 * i - ?n - 1) * v) [1..?n] vs)"
    using weighted_sum_lower[OF assms(1), of 1 "?n + 1"] unfolding eq r by simp
  show "sum_list (map2 (\<lambda>i v. real_of_int (2 * i - ?n - 1) * v) [1..?n] vs)
        \<le> real_of_int (?n - 1) * sum_list vs"
    using weighted_sum_upper[OF assms(2), of 1 "?n + 1" "?n - 1"] unfolding eq r by simp
qed

lemma sum_list_abs_nonneg: "\<forall>v\<in>set vs. 0 \<le> v \<Longrightarrow> 0 \<le> sum_list vs" for vs :: "real list"
  by (induction vs) auto

text \<open>
  C6. With \<open>v\<^sub>1 \<le> \<dots> \<le> v\<^sub>n\<close> the sorted absolute pixel values inside the Gini segmap:
  if \<open>n > 1\<close> and their sum is positive, \<^verbatim>\<open>gini\<close> is
  \<open>\<Sum>(2i - n - 1) v\<^sub>i / ((n - 1) \<Sum>v\<^sub>i)\<close>, lies in \<open>[0, 1]\<close> and leaves the flag as it
  was; otherwise it is the sentinel \<open>- 99\<close> and the flag is raised.
\<close>

theorem gini_range_or_sentinel:
  "(let vs = sort (map abs (bool_index (concat cutout) (concat seg)));
        n = int (length vs)
    in if 1 < n \<and> 0 < sum_list vs
       then gini cutout seg flag =
              (sum_list (map2 (\<lambda>i v. real_of_int (2 * i - n - 1) * v) [1..n] vs)
                 / (real_of_int (n - 1) * sum_list vs), flag)
            \<and> 0 \<le> fst (gini cutout seg flag) \<and> fst (gini cutout seg flag) \<le> 1
       else gini cutout seg flag = (- 99, 1))"
proof -
  define vs where "vs = sort (map abs (bool_index (concat cutout) (concat seg)))"
  define n where "n = int (length vs)"
  have srt: "sorted vs" by (simp add: vs_def)
  have nn: "\<forall>v\<in>set vs. 0 \<le> v" by (auto simp: vs_def)
  have s0: "0 \<le> sum_list vs" using nn by (rule sum_list_abs_nonneg)
  show ?thesis
  proof (cases "1 < n \<and> 0 < sum_list vs")
    case True
    then have den: "0 < real_of_int (n - 1) * sum_list vs" by simp
    have g: "gini cutout seg flag =
              (sum_list (map2 (\<lambda>i v. real_of_int (2 * i - n - 1) * v) [1..n] vs)
                 / (real_of_int (n - 1) * sum_list vs), flag)"
      using True unfolding gini_def Let_def n_def vs_def by simp
    have lo: "0 \<le> sum_list (map2 (\<lambda>i v. real_of_int (2 * i - n - 1) * v) [1..n] vs)"
      and hi: "sum_list (map2 (\<lambda>i v. real_of_int (2 * i - n - 1) * v) [1..n] vs)
               \<le> real_of_int (n - 1) * sum_list vs"
      unfolding n_def using gini_numerator_bounds[OF srt nn] by simp_all
    have "0 \<le> fst (gini cutout seg flag)" unfolding g fst_conv
      using lo den by (simp add: divide_nonneg_pos)
    moreover have "fst (gini cutout seg flag) \<le> 1" unfolding g fst_conv
      using hi den by (simp add: divide_le_eq_1_pos)
    ultimately show ?thesis using True g
      unfolding Let_def n_def vs_def by simp
  next
    case False
    then have "n \<le> 1 \<or> sum_list vs = 0" using s0 by linarith
    then have "gini cutout seg flag = (- 99, 1)"
      unfolding gini_def Let_def n_def vs_def by auto
    then show ?thesis using False
      unfolding Let_def n_def vs_def by simp
  qed
qed

subsection \<open>Maximum radius\<close>

lemma half_integer_distance_below_one:
  fixes a b :: int and i j :: nat
  assumes "sqrt ((real i + 0.5 - (real_of_int a + 0.5)) ^ 2
               + (real j + 0.5 - (real_of_int b + 0.5)) ^ 2) < 1"
  shows "sqrt ((real i + 0.5 - (real_of_int a + 0.5)) ^ 2
             + (real j + 0.5 - (real_of_int b + 0.5)) ^ 2) = 0"
proof -
  let ?k = "(int i - a) ^ 2 + (int j - b) ^ 2"
  have eq: "(real i + 0.5 - (real_of_int a + 0.5)) ^ 2
          + (real j + 0.5 - (real_of_int b + 0.5)) ^ 2 = real_of_int ?k"
    by simp
  from assms have "real_of_int ?k < 1" unfolding eq by simp
  then have "?k < 1" by linarith
  moreover have "0 \<le> ?k" by simp
  ultimately have "?k = 0" by linarith
  then show ?thesis unfolding eq by simp
qed

lemma set_bool_index: "set (bool_index xs bs) \<subseteq> set xs"
  by (auto simp: bool_index_def dest: set_zip_leftD)

lemma bool_index_nonempty:
  assumes "length xs = length bs" "True \<in> set bs"
  shows "bool_index xs bs \<noteq> []"
proof -
  from assms(2) obtain k where k: "k < length bs" "bs ! k = True"
    by (auto simp: in_set_conv_nth)
  with assms(1) have "(xs ! k, True) \<in> set (zip xs bs)"
    by (auto simp: set_zip)
  then have "\<exists>x\<in>set (zip xs bs). snd x" by (rule bexI[rotated]) simp
  then have "filter snd (zip xs bs) \<noteq> []" by (simp add: filter_empty_conv)
  then show ?thesis by (simp add: bool_index_def)
qed

lemma length_concat_shape: "length (concat a) = sum_list (shape a)"
  by (simp add: length_concat shape_def)

text \<open>
  C8. For a segmap of the shape of the cutout with at least one pixel set, \<^verbatim>\<open>rmax\<close>
  returns a radius (no exception, and in particular the assertion \<^verbatim>\<open>rmax == 0\<close> never
  fails): a radius below 1 is exactly 0, and then the flag is raised; a radius of 1 or
  more leaves the flag as it was. The snapped centre and the pixel centres lie on the same
  half-integer grid, so a squared distance is an integer.
\<close>

theorem rmax_below_one_is_zero:
  assumes shp: "shape seg = replicate ny nx"
    and ne: "True \<in> set (concat seg)"
  shows "\<exists>r f. rmax ny nx c seg flag = Inr (r, f)
           \<and> (r < 1 \<longrightarrow> r = 0 \<and> f = 1) \<and> (\<not> r < 1 \<longrightarrow> f = flag)"
proof -
  define xc where "xc = real_of_int \<lfloor>fst c\<rfloor> + 0.5"
  define yc where "yc = real_of_int \<lfloor>snd c\<rfloor> + 0.5"
  define distances where "distances = pixel_distances ny nx xc yc"
  define selected where "selected = bool_index (concat distances) (concat seg)"
  define r where "r = Max (set selected)"
  have sd: "shape distances = replicate ny nx"
    by (simp add: distances_def pixel_distances_def shape_def comp_def map_replicate_const)
  have len: "length (concat distances) = length (concat seg)"
    by (simp add: length_concat_shape sd shp)
  have sel: "selected \<noteq> []"
    unfolding selected_def using len ne by (rule bool_index_nonempty)
  have small: "d = 0" if d: "d \<in> set (concat distances)" and d1: "d < 1" for d
  proof -
    from d obtain row where row: "row \<in> set distances" "d \<in> set row"
      by auto
    from row(1) obtain i where
      "row = map (\<lambda>j. sqrt ((real i + 0.5 - yc) ^ 2 + (real j + 0.5 - xc) ^ 2)) [0..<nx]"
      unfolding distances_def pixel_distances_def by auto
    with row(2) obtain j where
      dj: "d = sqrt ((real i + 0.5 - yc) ^ 2 + (real j + 0.5 - xc) ^ 2)"
      by auto
    from d1 show ?thesis
      unfolding dj xc_def yc_def by (rule half_integer_distance_below_one)
  qed
  have "r \<in> set selected" unfolding r_def using sel by (intro Max_in) simp_all
  then have rin: "r \<in> set (concat distances)"
    unfolding selected_def using set_bool_index[of "concat distances" "concat seg"] by (rule subsetD[rotated])
  have r0: "r < 1 \<Longrightarrow> r = 0" using small[OF rin] .
  have res: "rmax ny nx c seg flag =
     (if r < 1 then (if r = 0 then Inr (r, 1) else Inl AssertionError) else Inr (r, flag))"
  proof -
    have a: "\<not> shape seg \<noteq> shape distances" using sd shp by simp
    have "rmax ny nx c seg flag =
      (if shape seg \<noteq> shape distances then Inl IndexError
       else if selected = [] then Inl ValueError
       else if r < 1 then (if r = 0 then Inr (r, 1) else Inl AssertionError)
       else Inr (r, flag))"
      unfolding rmax_def Let_def r_def selected_def distances_def xc_def yc_def ..
    with a sel show ?thesis by (simp only: if_False)
  qed
  show ?thesis
  proof (cases "r < 1")
    case True
    with r0 res show ?thesis by simp
  next
    case False
    with res show ?thesis by simp
  qed
qed

theorem rmax_below_one_is_zero_witness:
  "shape [[False, True]] = replicate 1 2 \<and> True \<in> set (concat [[False, True]])
   \<and> rmax 1 2 (1.3, 0.7) [[False, True]] 0 = Inr (0, 1)"
proof -
  have s: "shape [[False, True]] = replicate 1 2" by (simp add: shape_def)
  have t: "True \<in> set (concat [[False, True]])" by simp
  have u: "[0..<2] = [0, Suc 0]" by code_simp
  have e: "rmax 1 2 (1.3, 0.7) [[False, True]] 0 = Inr (0, 1)"
    by (simp add: rmax_def pixel_distances_def shape_def bool_index_def Let_def u)
  from rmax_below_one_is_zero[OF s t, of "(1.3, 0.7)" 0] s t e show ?thesis by simp
qed

subsection \<open>Skybox search\<close>

lemma skybox_loop_found:
  "find_skybox seg m ny nx b s = Some (i, j) \<Longrightarrow>
   skybox_loop seg m ny nx b s flag = Some ((Slice i (i + s), Slice j (j + s)), s, flag)"
  by (subst skybox_loop.simps) simp

lemma skybox_loop_fallback:
  "find_skybox seg m ny nx b s = None \<Longrightarrow> s < b \<Longrightarrow>
   skybox_loop seg m ny nx b s flag = Some ((Slice b (b + s), Slice b (b + s)), s, 1)"
  by (subst skybox_loop.simps) simp

lemma skybox_loop_halve:
  "find_skybox seg m ny nx b s = None \<Longrightarrow> \<not> s < b \<Longrightarrow>
   skybox_loop seg m ny nx b s flag = skybox_loop seg m ny nx b (s div 2) flag"
  by (subst skybox_loop.simps) simp

text \<open>
  C4 as stated fails where \<^verbatim>\<open>skybox_size\<close> equals \<^verbatim>\<open>border_size\<close>: the source tests
  \<^verbatim>\<open>self._skybox_size < self._border_size\<close>. In the 6 by 6 stamp below no 2 by 2 box
  is sky; with both sizes 2 the search does not fall back to the corner box
  \<open>(Slice 2 4, Slice 2 4)\<close> with the flag raised, it halves the size and returns the 1 by
  1 box it then finds, the flag untouched.
\<close>

theorem slice_skybox_equal_sizes_counterexample:
  "find_skybox crowded_stamp (grid_map (\<lambda>v. False) crowded_stamp) 6 6 2 2 = None
   \<and> slice_skybox crowded_stamp None 2 2 0 = Some ((Slice 2 3, Slice 2 3), 1, 0)"
proof -
  let ?m = "grid_map (\<lambda>v. False) crowded_stamp"
  have f2: "find_skybox crowded_stamp ?m 6 6 2 2 = None" unfolding crowded_stamp_def by code_simp
  have f1: "find_skybox crowded_stamp ?m 6 6 2 1 = Some (2, 2)" unfolding crowded_stamp_def by code_simp
  have "skybox_loop crowded_stamp ?m 6 6 2 2 0 = skybox_loop crowded_stamp ?m 6 6 2 (2 div 2) 0"
    using f2 by (rule skybox_loop_halve) simp
  also have "\<dots> = Some ((Slice 2 (2 + 1), Slice 2 (2 + 1)), 1, 0)"
    using skybox_loop_found[OF f1, of 0] by simp
  finally have l: "skybox_loop crowded_stamp ?m 6 6 2 2 0 = Some ((Slice 2 3, Slice 2 3), 1, 0)" by simp
  have "length crowded_stamp = 6" "ncols crowded_stamp = 6" by (simp_all add: crowded_stamp_def ncols_def)
  then show ?thesis using l f2 by (simp add: slice_skybox_def)
qed

lemma empty_box_is_sky: "box_is_sky seg m 0 i j"
  by (simp add: box_is_sky_def slice2_def)

lemma find_skybox_zero:
  assumes "0 < ny" "0 < nx"
  shows "find_skybox seg m ny nx 0 0 \<noteq> None"
proof -
  have "(0, 0) \<in> set (List.product [0..<ny] [0..<nx])" using assms by simp
  then show ?thesis
    unfolding find_skybox_def find_None_iff
    using empty_box_is_sky[of seg m 0 0] by (auto simp del: set_product)
qed

lemma skybox_loop_returns:
  assumes "0 < ny" "0 < nx"
  shows "\<exists>r. skybox_loop seg m ny nx b s flag = Some r"
proof (induction s rule: less_induct)
  case (less s)
  show ?case
  proof (cases "find_skybox seg m ny nx b s")
    case (Some p)
    then show ?thesis by (cases p) (blast dest: skybox_loop_found)
  next
    case None
    show ?thesis
    proof (cases "s < b")
      case True
      with None show ?thesis by (blast dest: skybox_loop_fallback)
    next
      case False
      have "s \<noteq> 0"
      proof
        assume "s = 0"
        with False have "b = 0" by simp
        with None \<open>s = 0\<close> find_skybox_zero[OF assms, of seg m] show False by simp
      qed
      then have "s div 2 < s" by simp
      from less.IH[OF this] obtain r where
        "skybox_loop seg m ny nx b (s div 2) flag = Some r" by blast
      with skybox_loop_halve[OF None False, of flag]
      have "skybox_loop seg m ny nx b s flag = Some r" by simp
      then show ?thesis by blast
    qed
  qed
qed


text \<open>
  C4, amended. For a stamp that passes the size test and in which no box of the current
  size is sky: if \<^verbatim>\<open>skybox_size\<close> is at least \<^verbatim>\<open>border_size\<close> (equality included), the
  search halves \<^verbatim>\<open>skybox_size\<close> and retries, so its result is that of the search with
  the halved size; once \<^verbatim>\<open>skybox_size\<close> is below \<^verbatim>\<open>border_size\<close> it falls back to the
  corner box at the border inset and raises the flag. On a stamp with at least one pixel
  the search returns.
\<close>

theorem slice_skybox_halves_or_falls_back:
  assumes big: "2 * border_size \<le> ncols seg" "2 * border_size \<le> length seg"
    and none: "find_skybox seg (case mask_opt of None \<Rightarrow> grid_map (\<lambda>v. False) seg | Some m \<Rightarrow> m)
                 (length seg) (ncols seg) border_size skybox_size = None"
  shows "(border_size \<le> skybox_size \<longrightarrow>
            slice_skybox seg mask_opt border_size skybox_size flag
            = slice_skybox seg mask_opt border_size (skybox_size div 2) flag)
       \<and> (skybox_size < border_size \<longrightarrow>
            slice_skybox seg mask_opt border_size skybox_size flag
            = Some ((Slice border_size (border_size + skybox_size),
                     Slice border_size (border_size + skybox_size)), skybox_size, 1))
       \<and> (0 < length seg \<and> 0 < ncols seg \<longrightarrow>
            (\<exists>r. slice_skybox seg mask_opt border_size skybox_size flag = Some r))"
proof -
  let ?m = "case mask_opt of None \<Rightarrow> grid_map (\<lambda>v. False) seg | Some m \<Rightarrow> m"
  have unf: "slice_skybox seg mask_opt border_size s flag
             = skybox_loop seg ?m (length seg) (ncols seg) border_size s flag" for s
    using big by (simp add: slice_skybox_def Let_def)
  have a: "border_size \<le> skybox_size \<longrightarrow>
            slice_skybox seg mask_opt border_size skybox_size flag
            = slice_skybox seg mask_opt border_size (skybox_size div 2) flag"
    unfolding unf using skybox_loop_halve[OF none, of flag] by simp
  have b: "skybox_size < border_size \<longrightarrow>
            slice_skybox seg mask_opt border_size skybox_size flag
            = Some ((Slice border_size (border_size + skybox_size),
                     Slice border_size (border_size + skybox_size)), skybox_size, 1)"
    unfolding unf using skybox_loop_fallback[OF none, of flag] by simp
  have c: "0 < length seg \<and> 0 < ncols seg \<longrightarrow>
            (\<exists>r. slice_skybox seg mask_opt border_size skybox_size flag = Some r)"
    unfolding unf using skybox_loop_returns by blast
  from a b c show ?thesis by blast
qed

theorem slice_skybox_halves_or_falls_back_witness:
  "find_skybox crowded_stamp (grid_map (\<lambda>v. False) crowded_stamp) 6 6 2 2 = None
   \<and> slice_skybox crowded_stamp None 2 2 0 = slice_skybox crowded_stamp None 2 (2 div 2) 0"
proof -
  have f2: "find_skybox crowded_stamp (grid_map (\<lambda>v. False) crowded_stamp) 6 6 2 2 = None"
    unfolding crowded_stamp_def by code_simp
  have d: "length crowded_stamp = 6" "ncols crowded_stamp = 6" by (simp_all add: crowded_stamp_def ncols_def)
  have "slice_skybox crowded_stamp None 2 2 0 = slice_skybox crowded_stamp None 2 (2 div 2) 0"
    using slice_skybox_halves_or_falls_back[of 2 crowded_stamp None 2 0] f2 d by simp
  with f2 show ?thesis by simp
qed

subsection \<open>Signal-to-noise per pixel\<close>

lemma grid_map_abs_nonneg:
  "\<not> list_ex (list_ex (\<lambda>x. x < 0)) v \<Longrightarrow> grid_map abs v = v" for v :: "real grid"
  unfolding grid_map_def list_ex_iff
  by (intro map_idI) (auto simp: not_less)

text \<open>
  C3 as stated fails in its last part: a negative variance entry does not raise the
  flag. Here the variance \<open>- 4\<close> is used as 4, the result \<open>2 / sqrt 4 = 1\<close> is
  finite, and the flag stays 0.
\<close>

theorem sn_per_pixel_negative_variance_counterexample:
  "list_ex (list_ex (\<lambda>x. x < 0)) [[- 4 :: real]]
   \<and> sn_per_pixel [[2]] [[True]] (Some [[- 4]]) (Fin 0) 0 = Inr (1, 0)"
  by (simp add: sn_per_pixel_def snp_value_def np_mean_def shape_def grid_map2_def grid_map_def
      bool_index_def)

text \<open>
  C3, amended. For every variance array of the shape of the stamp (in particular one with
  negative entries), the signal-to-noise is computed from the absolute values of the
  variance. The flag is left as it was when the result is finite; it is raised, and the
  result replaced by the sentinel \<open>- 99\<close>, only when the result is not finite.
\<close>

theorem sn_per_pixel_uses_abs_variance:
  assumes "shape seg = shape cutout" "shape v = shape cutout"
  shows "sn_per_pixel cutout seg (Some v) sky_sigma flag =
           (let locs = grid_map2 (\<lambda>s x. s \<and> 0 \<le> x) seg cutout;
                snp = snp_value cutout locs (grid_map abs v) sky_sigma
            in if isfinite snp then Inr (to_real snp, flag) else Inr (- 99, 1))"
proof -
  let ?locs = "grid_map2 (\<lambda>s x. s \<and> 0 \<le> x) seg cutout"
  have sl: "shape ?locs = shape seg" using assms(1) by (rule shape_grid_map2)
  have sv: "shape v = shape ?locs" using sl assms by simp
  show ?thesis
  proof (cases "list_ex (list_ex (\<lambda>x. x < 0)) v")
    case True
    then show ?thesis using assms(1) sv by (simp add: sn_per_pixel_def Let_def)
  next
    case False
    then have "grid_map abs v = v" by (rule grid_map_abs_nonneg)
    with False show ?thesis using assms(1) sv by (simp add: sn_per_pixel_def Let_def)
  qed
qed

theorem sn_per_pixel_uses_abs_variance_witness:
  "shape [[True]] = shape [[2 :: real]] \<and> shape [[- 4 :: real]] = shape [[2 :: real]]
   \<and> sn_per_pixel [[2]] [[True]] (Some [[- 4]]) (Fin 0) 0 = Inr (1, 0)
   \<and> snp_value [[2]] [[True]] [[\<bar>- 4\<bar>]] (Fin 0) = Fin 1"
proof -
  have a: "shape [[True]] = shape [[2 :: real]]" by (simp add: shape_def)
  have b: "shape [[- 4 :: real]] = shape [[2 :: real]]" by (simp add: shape_def)
  have v: "snp_value [[2]] [[True]] [[\<bar>- 4\<bar>]] (Fin 0) = Fin 1"
    by (simp add: snp_value_def np_mean_def bool_index_def)
  have "sn_per_pixel [[2]] [[True]] (Some [[- 4]]) (Fin 0) 0 = Inr (1, 0)"
    using sn_per_pixel_uses_abs_variance[OF a b, of "Fin 0" 0] v
    by (simp add: grid_map2_def grid_map_def)
  with a b v show ?thesis by simp
qed

subsection \<open>Asymmetry function\<close>

text \<open>
  C7. For a centre inside the image, the asymmetry function works on the aperture it
  builds for the kind: it returns the sentinel \<open>- 99\<close> and raises the flag when the
  aperture sum of \<open>\<bar>I\<bar>\<close> is 0; for the kind \<^verbatim>\<open>shape\<close> it returns diff/sum; for the
  kinds \<^verbatim>\<open>cas\<close> and \<^verbatim>\<open>outer\<close> it subtracts the aperture area times the sky asymmetry
  from diff before dividing, exactly when the sky asymmetry is finite, and returns
  diff/sum otherwise; in these cases the flag is left as it was. Where the source builds
  no aperture (an undefined or non-positive radius for \<^verbatim>\<open>outer\<close> or \<^verbatim>\<open>shape\<close>) it also
  returns the sentinel and raises the flag.
\<close>

theorem asymmetry_function_cases:
  assumes inb: "0 \<le> fst center" "fst center < real nx" "0 \<le> snd center" "snd center < real ny"
  shows "asymmetry_function c ny nx center kind flag =
     (case choose_aperture c center kind of
        Aperture ap \<Rightarrow>
          if phot_abs_sum c ap = 0 then Inr (- 99, 1)
          else if kind = ''shape'' then Inr (phot_abs_diff c ap / phot_abs_sum c ap, flag)
          else if isfinite (sky_asymmetry c)
          then Inr ((phot_abs_diff c ap - phot_area c ap * to_real (sky_asymmetry c))
                      / phot_abs_sum c ap, flag)
          else Inr (phot_abs_diff c ap / phot_abs_sum c ap, flag)
      | InvalidRadius \<Rightarrow> Inr (- 99, 1)
      | KindNotUnderstood \<Rightarrow> Inl (Exception ''Asymmetry kind not understood:''))"
proof -
  show ?thesis
  proof (cases "choose_aperture c center kind")
    case (Aperture ap)
    with inb show ?thesis
      by (simp add: asymmetry_function_def asymmetry_of_aperture_def Let_def)
  next
    case InvalidRadius
    with inb show ?thesis by (simp add: asymmetry_function_def Let_def)
  next
    case KindNotUnderstood
    with inb show ?thesis by (simp add: asymmetry_function_def Let_def)
  qed
qed

theorem asymmetry_function_cases_witness:
  "asymmetry_function example_context 5 5 (2, 2) ''outer'' 0 = Inr (1 / 5, 0)
   \<and> asymmetry_function example_context 5 5 (2, 2) ''shape'' 0 = Inr (3 / 10, 0)
   \<and> asymmetry_function (example_context\<lparr>sky_asymmetry := NaN\<rparr>) 5 5 (2, 2) ''cas'' 0 = Inr (3 / 10, 0)
   \<and> asymmetry_function (example_context\<lparr>phot_abs_sum := (\<lambda>ap. 0)\<rparr>) 5 5 (2, 2) ''cas'' 0 = Inr (- 99, 1)"
proof -
  have i: "0 \<le> fst (2 :: real, 2 :: real)" "fst (2 :: real, 2 :: real) < real 5"
    "0 \<le> snd (2 :: real, 2 :: real)" "snd (2 :: real, 2 :: real) < real 5"
    by simp_all
  have a: "asymmetry_function example_context 5 5 (2, 2) ''outer'' 0 = Inr (1 / 5, 0)"
    using asymmetry_function_cases[OF i, where kind = "''outer''" and c = example_context and flag = 0]
    by (simp add: example_context_def choose_aperture_def)
  have b: "asymmetry_function example_context 5 5 (2, 2) ''shape'' 0 = Inr (3 / 10, 0)"
    using asymmetry_function_cases[OF i, where kind = "''shape''" and c = example_context and flag = 0]
    by (simp add: example_context_def choose_aperture_def)
  have c: "asymmetry_function (example_context\<lparr>sky_asymmetry := NaN\<rparr>) 5 5 (2, 2) ''cas'' 0 = Inr (3 / 10, 0)"
    using asymmetry_function_cases[OF i, where kind = "''cas''" and c = "example_context\<lparr>sky_asymmetry := NaN\<rparr>" and flag = 0]
    by (simp add: example_context_def choose_aperture_def)
  have d: "asymmetry_function (example_context\<lparr>phot_abs_sum := (\<lambda>ap. 0)\<rparr>) 5 5 (2, 2) ''cas'' 0 = Inr (- 99, 1)"
    using asymmetry_function_cases[OF i, where kind = "''cas''" and c = "example_context\<lparr>phot_abs_sum := (\<lambda>ap. 0)\<rparr>" and flag = 0]
    by (simp add: example_context_def choose_aperture_def)
  from a b c d show ?thesis by simp
qed

subsection \<open>Radius at a fraction of the total flux\<close>

lemma fraction_scan_exhausts:
  assumes "\<forall>k. i \<le> k \<and> k < n \<longrightarrow>
             f (g ! k) \<noteq> 0 \<and>
             (0 < f (g ! k) \<longrightarrow> rm = None \<and> (\<forall>j. i \<le> j \<and> j < k \<longrightarrow> 0 < f (g ! j)))"
  shows "fraction_scan f g n i rm flag = Inl (Exception ''Root not found within range.'')"
  using assms
proof (induction f g n i rm flag rule: fraction_scan.induct)
  case (1 f g n i rm flag)
  show ?case
  proof (cases "n \<le> i")
    case True
    then show ?thesis by (simp add: fraction_scan.simps[of f g n i rm flag])
  next
    case False
    then have i: "i < n" by simp
    from "1.prems" i have nz: "f (g ! i) \<noteq> 0" by auto
    show ?thesis
    proof (cases "f (g ! i) < 0")
      case True
      have hyp: "\<forall>k. i + 1 \<le> k \<and> k < n \<longrightarrow>
             f (g ! k) \<noteq> 0 \<and>
             (0 < f (g ! k) \<longrightarrow> Some (g ! i) = None \<and> (\<forall>j. i + 1 \<le> j \<and> j < k \<longrightarrow> 0 < f (g ! j)))"
      proof (intro allI impI)
        fix k assume k: "i + 1 \<le> k \<and> k < n"
        then have ik: "i \<le> k \<and> k < n" by simp
        with "1.prems" have a: "f (g ! k) \<noteq> 0" by blast
        have "\<not> 0 < f (g ! k)"
        proof
          assume "0 < f (g ! k)"
          with "1.prems" ik have "\<forall>j. i \<le> j \<and> j < k \<longrightarrow> 0 < f (g ! j)" by blast
          with k have "0 < f (g ! i)" by simp
          with True show False by simp
        qed
        with a show "f (g ! k) \<noteq> 0 \<and>
             (0 < f (g ! k) \<longrightarrow> Some (g ! i) = None \<and> (\<forall>j. i + 1 \<le> j \<and> j < k \<longrightarrow> 0 < f (g ! j)))"
          by simp
      qed
      have "fraction_scan f g n (i + 1) (Some (g ! i)) flag
            = Inl (Exception ''Root not found within range.'')"
        using "1.IH"(1)[OF False nz True hyp] .
      with False nz True show ?thesis by (simp add: fraction_scan.simps[of f g n i rm flag])
    next
      case nneg: False
      with nz have pos: "0 < f (g ! i)" by simp
      with "1.prems" i have rm: "rm = None" by auto
      have hyp: "\<forall>k. i + 1 \<le> k \<and> k < n \<longrightarrow>
             f (g ! k) \<noteq> 0 \<and>
             (0 < f (g ! k) \<longrightarrow> (None :: real option) = None \<and> (\<forall>j. i + 1 \<le> j \<and> j < k \<longrightarrow> 0 < f (g ! j)))"
      proof (intro allI impI)
        fix k assume k: "i + 1 \<le> k \<and> k < n"
        then have ik: "i \<le> k \<and> k < n" by simp
        with "1.prems" have a: "f (g ! k) \<noteq> 0" by blast
        have "\<forall>j. i + 1 \<le> j \<and> j < k \<longrightarrow> 0 < f (g ! j)" if "0 < f (g ! k)"
        proof -
          from that "1.prems" ik have "\<forall>j. i \<le> j \<and> j < k \<longrightarrow> 0 < f (g ! j)" by blast
          then show ?thesis by simp
        qed
        with a show "f (g ! k) \<noteq> 0 \<and>
             (0 < f (g ! k) \<longrightarrow> (None :: real option) = None \<and> (\<forall>j. i + 1 \<le> j \<and> j < k \<longrightarrow> 0 < f (g ! j)))"
          by simp
      qed
      have "fraction_scan f g n (i + 1) None 1
            = Inl (Exception ''Root not found within range.'')"
        using "1.IH"(2)[OF False nz nneg rm hyp] .
      with False nz nneg show ?thesis
        unfolding rm by (simp add: fraction_scan.simps[of f g n i None flag])
    qed
  qed
qed


lemma min_half_fifth_less: "0 < r \<Longrightarrow> min 0.5 (0.2 * r) < r" for r :: real
  by (simp add: min_def)

text \<open>
  C1, amended. For a positive outer bound with positive total flux: when the 100 points
  of the coarse scan are exhausted without an exact zero and without a bracketing interval
  (no positive value after a negative one), the helper raises the exception
  \<^verbatim>\<open>Root not found within range.\<close>; it returns neither a radius nor a flag.
\<close>

theorem radius_at_fraction_raises_when_exhausted:
  assumes total: "0 < aperture_sum img (real_of_int \<lfloor>fst center\<rfloor> + 0.5,
                                        real_of_int \<lfloor>snd center\<rfloor> + 0.5) r_total"
    and rpos: "0 < r_total"
    and exhausted: "\<forall>i<100.
        fraction_curve aperture_sum img center r_total fraction i \<noteq> 0 \<and>
        (0 < fraction_curve aperture_sum img center r_total fraction i \<longrightarrow>
           (\<forall>j<i. 0 < fraction_curve aperture_sum img center r_total fraction j))"
  shows "radius_at_fraction_of_total aperture_sum brentq img center r_total fraction
         = Inl (Exception ''Root not found within range.'')"
proof -
  define c where "c = (real_of_int \<lfloor>fst center\<rfloor> + 0.5, real_of_int \<lfloor>snd center\<rfloor> + 0.5)"
  define g where "g = linspace (min 0.5 (0.2 * r_total)) r_total 100"
  define f where "f = (\<lambda>r. fraction_of_total_function aperture_sum r img c fraction
                               (aperture_sum img c r_total))"
  have curve: "fraction_curve aperture_sum img center r_total fraction i = f (g ! i)" for i
    by (simp add: fraction_curve_def Let_def f_def g_def c_def)
  have "\<forall>k. 0 \<le> k \<and> k < 100 \<longrightarrow>
             f (g ! k) \<noteq> 0 \<and>
             (0 < f (g ! k) \<longrightarrow> (None :: real option) = None \<and> (\<forall>j. 0 \<le> j \<and> j < k \<longrightarrow> 0 < f (g ! j)))"
    using exhausted unfolding curve by simp
  then have scan: "fraction_scan f g 100 0 None 0 = Inl (Exception ''Root not found within range.'')"
    by (rule fraction_scan_exhausts)
  have a: "\<not> aperture_sum img c r_total \<le> 0" using total by (simp add: c_def)
  have b: "min 0.5 (0.2 * r_total) < r_total" using rpos by (rule min_half_fifth_less)
  show ?thesis
    unfolding radius_at_fraction_of_total_def Let_def
    using a b scan unfolding c_def g_def f_def by simp
qed

text \<open>
  C1 as stated fails: for a source whose flux lies inside the innermost aperture the
  scan value is positive at every point, no bracket is found, and the helper raises
  instead of returning a value with the flag set.
\<close>

theorem radius_at_fraction_exception_counterexample:
  "0 < enclosed_unit_flux [[1]] (0.5, 0.5) 5
   \<and> radius_at_fraction_of_total enclosed_unit_flux lower_end [[1]] (0.5, 0.5) 5 (1 / 2)
       = Inl (Exception ''Root not found within range.'')"
proof -
  let ?f = "\<lambda>r. fraction_of_total_function enclosed_unit_flux r [[1]]
                 (real_of_int \<lfloor>fst (0.5 :: real, 0.5 :: real)\<rfloor> + 0.5,
                  real_of_int \<lfloor>snd (0.5 :: real, 0.5 :: real)\<rfloor> + 0.5) (1 / 2)
                 (enclosed_unit_flux [[1]]
                    (real_of_int \<lfloor>fst (0.5 :: real, 0.5 :: real)\<rfloor> + 0.5,
                     real_of_int \<lfloor>snd (0.5 :: real, 0.5 :: real)\<rfloor> + 0.5) 5)"
  have v: "?f r = 1 / 2" for r
    by (simp add: fraction_of_total_function_def enclosed_unit_flux_def)
  have "fraction_scan ?f (linspace (min 0.5 (0.2 * 5)) 5 100) 100 0 None 0
        = Inl (Exception ''Root not found within range.'')"
    by (rule fraction_scan_exhausts) (simp only: v, simp)
  then show ?thesis
    by (simp add: radius_at_fraction_of_total_def Let_def enclosed_unit_flux_def)
qed

theorem radius_at_fraction_raises_when_exhausted_witness:
  "0 < enclosed_unit_flux [[1]] (real_of_int \<lfloor>fst (0.5 :: real, 0.5 :: real)\<rfloor> + 0.5,
                                 real_of_int \<lfloor>snd (0.5 :: real, 0.5 :: real)\<rfloor> + 0.5) 5
   \<and> fraction_curve enclosed_unit_flux [[1]] (0.5, 0.5) 5 (1 / 2) 0 = 1 / 2
   \<and> radius_at_fraction_of_total enclosed_unit_flux lower_end [[1]] (0.5, 0.5) 5 (1 / 2)
       = Inl (Exception ''Root not found within range.'')"
proof -
  have t: "0 < enclosed_unit_flux [[1]] (real_of_int \<lfloor>fst (0.5 :: real, 0.5 :: real)\<rfloor> + 0.5,
                                 real_of_int \<lfloor>snd (0.5 :: real, 0.5 :: real)\<rfloor> + 0.5) 5"
    by (simp add: enclosed_unit_flux_def)
  have r: "0 < (5 :: real)" by simp
  have v: "fraction_curve enclosed_unit_flux [[1]] (0.5, 0.5) 5 (1 / 2) i = 1 / 2" for i
    by (simp add: fraction_curve_def fraction_of_total_function_def enclosed_unit_flux_def)
  have e: "\<forall>i<100.
        fraction_curve enclosed_unit_flux [[1]] (0.5, 0.5) 5 (1 / 2) i \<noteq> 0 \<and>
        (0 < fraction_curve enclosed_unit_flux [[1]] (0.5, 0.5) 5 (1 / 2) i \<longrightarrow>
           (\<forall>j<i. 0 < fraction_curve enclosed_unit_flux [[1]] (0.5, 0.5) 5 (1 / 2) j))"
    by (simp only: v, simp)
  from radius_at_fraction_raises_when_exhausted[OF t r e, of lower_end] t v[of 0]
  show ?thesis by simp
qed

end
